theory Spec2Isabelle
  imports Complex_Main "HOL-Library.Sublist"
begin

section \<open>JSON values and the Python operations the services apply to them\<close>

text \<open>
  The RDMP body, the field configuration and a field value are untyped JSON data in the
  source (\<^verbatim>\<open>dict[str, Any]\<close>, \<^verbatim>\<open>Any\<close>, a JSON column). A JSON object is an association
  list read with \<open>map_of\<close>; a finite binary float is carried as the rational number it
  denotes (NaN and the infinities are not JSON and are not modelled).
\<close>

datatype json =
    JNull
  | JBool bool
  | JInt int
  | JFloat rat
  | JStr string
  | JList "json list"
  | JDict "(string \<times> json) list"

text \<open>The exceptions the modelled code can raise.\<close>

datatype py_error = TypeError | KeyError | AttributeError | OverflowError

definition and_then :: "'e + 'a \<Rightarrow> ('a \<Rightarrow> 'e + 'b) \<Rightarrow> 'e + 'b" where
  "and_then m f = (case m of Inl e \<Rightarrow> Inl e | Inr x \<Rightarrow> f x)"

abbreviation (input) sq :: char where
  "sq \<equiv> CHR 0x27"

text \<open>Truth value of an object, as \<^verbatim>\<open>if x:\<close> and \<^verbatim>\<open>not x\<close> read it.\<close>

fun py_truthy :: "json \<Rightarrow> bool" where
  "py_truthy JNull = False"
| "py_truthy (JBool b) = b"
| "py_truthy (JInt n) = (n \<noteq> 0)"
| "py_truthy (JFloat r) = (r \<noteq> 0)"
| "py_truthy (JStr s) = (s \<noteq> [])"
| "py_truthy (JList xs) = (xs \<noteq> [])"
| "py_truthy (JDict kvs) = (kvs \<noteq> [])"

text \<open>Lists and dicts are unhashable: using one as a set element raises TypeError.\<close>

fun py_hashable :: "json \<Rightarrow> bool" where
  "py_hashable (JList xs) = False"
| "py_hashable (JDict kvs) = False"
| "py_hashable v = True"

text \<open>The numeric value of a bool, int or float: \<^verbatim>\<open>True == 1 == 1.0\<close> in Python.\<close>

fun py_num :: "json \<Rightarrow> rat option" where
  "py_num (JBool b) = Some (if b then 1 else 0)"
| "py_num (JInt n) = Some (of_int n)"
| "py_num (JFloat r) = Some r"
| "py_num v = None"

text \<open>Python's \<^verbatim>\<open>==\<close> on JSON data.\<close>

function (sequential) py_eq :: "json \<Rightarrow> json \<Rightarrow> bool" where
  "py_eq JNull b = (b = JNull)"
| "py_eq (JStr s) b = (b = JStr s)"
| "py_eq (JList xs) (JList ys) = list_all2 py_eq xs ys"
| "py_eq (JList xs) b = False"
| "py_eq (JDict xs) (JDict ys) =
     (set (map fst xs) = set (map fst ys) \<and>
      (\<forall>k \<in> set (map fst xs). case (map_of xs k, map_of ys k) of
          (Some v, Some w) \<Rightarrow> py_eq v w | _ \<Rightarrow> False))"
| "py_eq (JDict xs) b = False"
| "py_eq a b = (py_num a \<noteq> None \<and> py_num a = py_num b)"
  by pat_completeness auto
termination
proof (relation "measure (\<lambda>(a, b). size a)")
  show "wf (measure (\<lambda>(a, b). size a))" by simp
next
  fix xs ys :: "json list" and z yb :: json
  assume "z \<in> set xs"
  then have "size z < Suc (size_list size xs)"
    by (induction xs) auto
  then show "((z, yb), JList xs, JList ys) \<in> measure (\<lambda>(a, b). size a)"
    by simp
next
  fix xs ys :: "(string \<times> json) list" and x :: string
    and xa y :: "json option" and x2 x2a :: json
  assume "(xa, y) = (map_of xs x, map_of ys x)" and "xa = Some x2"
  then have "map_of xs x = Some x2" by simp
  then have "size x2 < Suc (size_list (size_prod (\<lambda>x. 0) size) xs)"
    by (induction xs) (auto split: if_splits)
  then show "((x2, x2a), JDict xs, JDict ys) \<in> measure (\<lambda>(a, b). size a)"
    by simp
qed

text \<open>\<^verbatim>\<open>needle in haystack\<close> on two strings: the substring test.\<close>

fun py_str_contains :: "string \<Rightarrow> string \<Rightarrow> bool" where
  "py_str_contains [] needle = (needle = [])"
| "py_str_contains (c # cs) needle =
     (take (length needle) (c # cs) = needle \<or> py_str_contains cs needle)"

text \<open>
  \<^verbatim>\<open>x in c\<close>: key membership for a dict (the key is hashed), element equality for a list,
  substring for a string (the left operand must be a string); any other right operand
  is not iterable.
\<close>

fun py_in :: "json \<Rightarrow> json \<Rightarrow> py_error + bool" where
  "py_in x (JDict kvs) =
     (if py_hashable x then Inr (\<exists>k \<in> set (map fst kvs). py_eq (JStr k) x) else Inl TypeError)"
| "py_in x (JList xs) = Inr (\<exists>e \<in> set xs. py_eq e x)"
| "py_in x (JStr s) = (case x of JStr t \<Rightarrow> Inr (py_str_contains s t) | _ \<Rightarrow> Inl TypeError)"
| "py_in x c = Inl TypeError"

text \<open>\<^verbatim>\<open>c["k"]\<close> with a string subscript, and \<^verbatim>\<open>c.get("k", default)\<close>.\<close>

fun py_getitem :: "json \<Rightarrow> string \<Rightarrow> py_error + json" where
  "py_getitem (JDict kvs) k = (case map_of kvs k of None \<Rightarrow> Inl KeyError | Some v \<Rightarrow> Inr v)"
| "py_getitem c k = Inl TypeError"

fun py_get :: "json \<Rightarrow> string \<Rightarrow> json \<Rightarrow> py_error + json" where
  "py_get (JDict kvs) k d = (case map_of kvs k of None \<Rightarrow> Inr d | Some v \<Rightarrow> Inr v)"
| "py_get c k d = Inl AttributeError"

text \<open>
  A Python \<^verbatim>\<open>set\<close> of JSON scalars, kept as a list without equal elements:
  \<^verbatim>\<open>x in s\<close> hashes \<open>x\<close> first, \<^verbatim>\<open>s.add(x)\<close> keeps one copy.
\<close>

definition py_set_contains :: "json list \<Rightarrow> json \<Rightarrow> py_error + bool" where
  "py_set_contains s x =
     (if py_hashable x then Inr (\<exists>e \<in> set s. py_eq e x) else Inl TypeError)"

definition py_set_add :: "json list \<Rightarrow> json \<Rightarrow> json list" where
  "py_set_add s x = (if \<exists>e \<in> set s. py_eq e x then s else s @ [x])"

text \<open>Iterating over an object: list elements, dict keys, the characters of a string.\<close>

fun py_iter :: "json \<Rightarrow> py_error + json list" where
  "py_iter (JList xs) = Inr xs"
| "py_iter (JDict kvs) = Inr (map JStr (rev (remdups (rev (map fst kvs)))))"
| "py_iter (JStr s) = Inr (map (\<lambda>c. JStr [c]) s)"
| "py_iter c = Inl TypeError"

subsection \<open>Formatted messages\<close>

text \<open>
  An f-string is kept as its pieces: \<open>Lit\<close> for the literal text and \<open>Fmt v\<close> for
  \<^verbatim>\<open>{v}\<close>, the text \<^verbatim>\<open>str(v)\<close> of a value. \<open>render\<close> gives the text where \<^verbatim>\<open>str\<close>
  is modelled: None, bools, ints and strings.
\<close>

datatype fragment = Lit string | Fmt json

type_synonym message = "fragment list"

fun digits :: "nat \<Rightarrow> string" where
  "digits n = (if n < 10 then [char_of (48 + n)] else digits (n div 10) @ [char_of (48 + n mod 10)])"

fun py_str :: "json \<Rightarrow> string option" where
  "py_str JNull = Some ''None''"
| "py_str (JBool b) = Some (if b then ''True'' else ''False'')"
| "py_str (JInt n) = Some (if n < 0 then CHR ''-'' # digits (nat (- n)) else digits (nat n))"
| "py_str (JStr s) = Some s"
| "py_str v = None"

fun render :: "message \<Rightarrow> string option" where
  "render [] = Some []"
| "render (Lit s # m) = map_option ((@) s) (render m)"
| "render (Fmt v # m) =
     (case py_str v of None \<Rightarrow> None | Some s \<Rightarrow> map_option ((@) s) (render m))"

section \<open>The schema validator: \<^verbatim>\<open>services/rdmp_service.py\<close>\<close>

definition required_perms :: "string list" where
  "required_perms = [''can_edit_metadata'', ''can_edit_paths'', ''can_create_release'', ''can_manage_rdmp'']"

definition field_types :: json where
  "field_types = JList [JStr ''string'', JStr ''number'', JStr ''date'', JStr ''categorical'']"

definition visibilities :: json where
  "visibilities = JList [JStr ''private'', JStr ''collaborators'', JStr ''public_index'']"

text \<open>
  The inner loop \<^verbatim>\<open>for perm in required_perms: if perm not in perms: errors.append(...)\<close>
  of one role, with the role's index \<open>i\<close> for the message.
\<close>

fun check_perms :: "string list \<Rightarrow> json \<Rightarrow> json \<Rightarrow> nat \<Rightarrow> message list \<Rightarrow> py_error + message list" where
  "check_perms [] perms role i errors = Inr errors"
| "check_perms (perm # rest) perms role i errors =
     (case py_in (JStr perm) perms of
        Inl e \<Rightarrow> Inl e
      | Inr True \<Rightarrow> check_perms rest perms role i errors
      | Inr False \<Rightarrow>
          (case py_get role ''name'' (JInt (int i)) of
             Inl e \<Rightarrow> Inl e
           | Inr n \<Rightarrow> check_perms rest perms role i
               (errors @ [[Lit (''Role '' @ [sq]), Fmt n, Lit (sq # '' missing permission '' @ [sq]),
                           Fmt (JStr perm), Lit [sq]]])))"

text \<open>
  The body of \<^verbatim>\<open>for i, role in enumerate(roles)\<close>, one definition for each of its two
  \<^verbatim>\<open>if\<close> statements; \<open>validate_role\<close> gives the new \<open>(role_names, errors)\<close>.
\<close>

definition check_role_name :: "nat \<Rightarrow> json \<Rightarrow> json list \<Rightarrow> message list \<Rightarrow> py_error + (json list \<times> message list)" where
  "check_role_name i role role_names errors =
     and_then (py_in (JStr ''name'') role) (\<lambda>has_name.
     if \<not> has_name
     then Inr (role_names, errors @ [[Lit ''Role '', Fmt (JInt (int i)), Lit ('' missing 'name'' @ [sq])]])
     else and_then (py_getitem role ''name'') (\<lambda>n.
          and_then (py_set_contains role_names n) (\<lambda>dup.
          Inr (py_set_add role_names n,
               if dup then errors @ [[Lit ''Duplicate role name: '', Fmt n]] else errors))))"

definition check_role_permissions :: "nat \<Rightarrow> json \<Rightarrow> message list \<Rightarrow> py_error + message list" where
  "check_role_permissions i role errors =
     and_then (py_in (JStr ''permissions'') role) (\<lambda>has_perms.
     if \<not> has_perms
     then Inr (errors @ [[Lit ''Role '', Fmt (JInt (int i)), Lit ('' missing 'permissions'' @ [sq])]])
     else and_then (py_getitem role ''permissions'') (\<lambda>perms.
          check_perms required_perms perms role i errors))"

definition validate_role :: "nat \<Rightarrow> json \<Rightarrow> json list \<Rightarrow> message list \<Rightarrow> py_error + (json list \<times> message list)" where
  "validate_role i role role_names errors =
     and_then (check_role_name i role role_names errors) (\<lambda>(role_names1, errors1).
     and_then (check_role_permissions i role errors1) (\<lambda>errors2.
     Inr (role_names1, errors2)))"

fun validate_roles :: "json list \<Rightarrow> nat \<Rightarrow> json list \<Rightarrow> message list \<Rightarrow> py_error + message list" where
  "validate_roles [] i role_names errors = Inr errors"
| "validate_roles (role # rest) i role_names errors =
     (case validate_role i role role_names errors of
        Inl e \<Rightarrow> Inl e
      | Inr (role_names1, errors1) \<Rightarrow> validate_roles rest (Suc i) role_names1 errors1)"

text \<open>
  The body of \<^verbatim>\<open>for i, field in enumerate(fields)\<close>, one definition for each of its
  five \<^verbatim>\<open>if\<close> statements; \<open>validate_field\<close> gives the new \<open>(field_keys, errors)\<close>.
\<close>

definition check_field_key :: "nat \<Rightarrow> json \<Rightarrow> json list \<Rightarrow> message list \<Rightarrow> py_error + (json list \<times> message list)" where
  "check_field_key i field field_keys errors =
     and_then (py_in (JStr ''key'') field) (\<lambda>has_key.
     if \<not> has_key
     then Inr (field_keys, errors @ [[Lit ''Field '', Fmt (JInt (int i)), Lit ('' missing 'key'' @ [sq])]])
     else and_then (py_getitem field ''key'') (\<lambda>k.
          and_then (py_set_contains field_keys k) (\<lambda>dup.
          Inr (py_set_add field_keys k,
               if dup then errors @ [[Lit ''Duplicate field key: '', Fmt k]] else errors))))"

definition check_field_label :: "nat \<Rightarrow> json \<Rightarrow> message list \<Rightarrow> py_error + message list" where
  "check_field_label i field errors =
     and_then (py_in (JStr ''label'') field) (\<lambda>has_label.
     if \<not> has_label
     then Inr (errors @ [[Lit ''Field '', Fmt (JInt (int i)), Lit ('' missing 'label'' @ [sq])]])
     else Inr errors)"

definition check_field_type :: "nat \<Rightarrow> json \<Rightarrow> message list \<Rightarrow> py_error + message list" where
  "check_field_type i field errors =
     and_then (py_in (JStr ''type'') field) (\<lambda>has_type.
     if \<not> has_type
     then Inr (errors @ [[Lit ''Field '', Fmt (JInt (int i)), Lit ('' missing 'type'' @ [sq])]])
     else and_then (py_getitem field ''type'') (\<lambda>t.
          and_then (py_in t field_types) (\<lambda>known.
          if known then Inr errors
          else and_then (py_get field ''key'' (JInt (int i))) (\<lambda>k.
               and_then (py_getitem field ''type'') (\<lambda>t'.
               Inr (errors @ [[Lit (''Field '' @ [sq]), Fmt k, Lit (sq # '' has invalid type: ''), Fmt t']]))))))"

definition check_field_visibility :: "nat \<Rightarrow> json \<Rightarrow> message list \<Rightarrow> py_error + message list" where
  "check_field_visibility i field errors =
     and_then (py_in (JStr ''visibility'') field) (\<lambda>has_visibility.
     if has_visibility
     then and_then (py_getitem field ''visibility'') (\<lambda>v.
          and_then (py_in v visibilities) (\<lambda>known.
          if known then Inr errors
          else and_then (py_get field ''key'' (JInt (int i))) (\<lambda>k.
               and_then (py_getitem field ''visibility'') (\<lambda>v'.
               Inr (errors @ [[Lit (''Field '' @ [sq]), Fmt k, Lit (sq # '' has invalid visibility: ''), Fmt v']])))))
     else Inr errors)"

definition check_field_allowed_values :: "nat \<Rightarrow> json \<Rightarrow> message list \<Rightarrow> py_error + message list" where
  "check_field_allowed_values i field errors =
     and_then (py_get field ''type'' JNull) (\<lambda>t.
     if py_eq t (JStr ''categorical'')
     then and_then (py_in (JStr ''allowed_values'') field) (\<lambda>has_allowed.
          if \<not> has_allowed
          then and_then (py_get field ''key'' (JInt (int i))) (\<lambda>k.
               Inr (errors @ [[Lit (''Categorical field '' @ [sq]), Fmt k,
                               Lit (sq # '' missing 'allowed_values'' @ [sq])]]))
          else Inr errors)
     else Inr errors)"

definition validate_field :: "nat \<Rightarrow> json \<Rightarrow> json list \<Rightarrow> message list \<Rightarrow> py_error + (json list \<times> message list)" where
  "validate_field i field field_keys errors =
     and_then (check_field_key i field field_keys errors) (\<lambda>(field_keys1, errors1).
     and_then (check_field_label i field errors1) (\<lambda>errors2.
     and_then (check_field_type i field errors2) (\<lambda>errors3.
     and_then (check_field_visibility i field errors3) (\<lambda>errors4.
     and_then (check_field_allowed_values i field errors4) (\<lambda>errors5.
     Inr (field_keys1, errors5))))))"

fun validate_fields :: "json list \<Rightarrow> nat \<Rightarrow> json list \<Rightarrow> message list \<Rightarrow> py_error + message list" where
  "validate_fields [] i field_keys errors = Inr errors"
| "validate_fields (field # rest) i field_keys errors =
     (case validate_field i field field_keys errors of
        Inl e \<Rightarrow> Inl e
      | Inr (field_keys1, errors1) \<Rightarrow> validate_fields rest (Suc i) field_keys1 errors1)"

text \<open>
  The two blocks \<^verbatim>\<open># Validate roles\<close> and \<^verbatim>\<open># Validate fields\<close>, each from the errors
  collected so far to the errors after it.
\<close>

definition roles_section :: "json \<Rightarrow> message list \<Rightarrow> py_error + message list" where
  "roles_section rdmp_json errors =
     and_then (py_in (JStr ''roles'') rdmp_json) (\<lambda>has_roles.
     if has_roles
     then and_then (py_getitem rdmp_json ''roles'') (\<lambda>roles.
          case roles of
            JList (r # rs) \<Rightarrow> validate_roles (r # rs) 0 [] errors
          | _ \<Rightarrow> Inr (errors @ [[Lit (sq # ''roles' must be a non-empty list'')]]))
     else Inr errors)"

definition fields_section :: "json \<Rightarrow> message list \<Rightarrow> py_error + message list" where
  "fields_section rdmp_json errors =
     and_then (py_in (JStr ''fields'') rdmp_json) (\<lambda>has_fields.
     if has_fields
     then and_then (py_getitem rdmp_json ''fields'') (\<lambda>fields.
          case fields of
            JList (f # fs) \<Rightarrow> validate_fields (f # fs) 0 [] errors
          | _ \<Rightarrow> Inr (errors @ [[Lit (sq # ''fields' must be a non-empty list'')]]))
     else Inr errors)"

text \<open>
  \<^verbatim>\<open>validate_rdmp_schema(rdmp_json)\<close>: \<open>Inr (ok, errors)\<close> is the returned pair, \<open>Inl e\<close>
  an exception that leaves the function.
\<close>

definition validate_rdmp_schema :: "json \<Rightarrow> py_error + (bool \<times> message list)" where
  "validate_rdmp_schema rdmp_json =
     and_then (py_in (JStr ''roles'') rdmp_json) (\<lambda>has_roles.
     let errors1 = (if \<not> has_roles then [[Lit ''Missing 'roles' key'']] else []) in
     and_then (py_in (JStr ''fields'') rdmp_json) (\<lambda>has_fields.
     let errors2 = (if \<not> has_fields then errors1 @ [[Lit ''Missing 'fields' key'']] else errors1) in
     and_then (roles_section rdmp_json errors2) (\<lambda>errors3.
     and_then (fields_section rdmp_json errors3) (\<lambda>errors4.
     Inr (length errors4 = 0, errors4)))))"

text \<open>
  \<^verbatim>\<open>validate_field_value(field_config, value)\<close>. \<open>float_of_str\<close> is the grammar of the
  builtin \<^verbatim>\<open>float\<close> on strings, a parameter: \<^verbatim>\<open>float(s)\<close> raises ValueError on the
  strings outside it. On an int, \<^verbatim>\<open>float\<close> raises OverflowError when the value rounds to
  a float beyond the largest finite one.
\<close>

datatype float_outcome = Parsed | ValueError_or_TypeError | Overflow

definition float_max_int :: int where
  "float_max_int = 2 ^ 1024 - 2 ^ 970"

fun py_float :: "(string \<Rightarrow> bool) \<Rightarrow> json \<Rightarrow> float_outcome" where
  "py_float float_of_str (JBool b) = Parsed"
| "py_float float_of_str (JInt n) = (if \<bar>n\<bar> < float_max_int then Parsed else Overflow)"
| "py_float float_of_str (JFloat r) = Parsed"
| "py_float float_of_str (JStr s) = (if float_of_str s then Parsed else ValueError_or_TypeError)"
| "py_float float_of_str v = ValueError_or_TypeError"

text \<open>\<^verbatim>\<open>', '.join(xs)\<close>: every element must be a string.\<close>

fun join_strs :: "json list \<Rightarrow> py_error + string" where
  "join_strs [] = Inr []"
| "join_strs [JStr s] = Inr s"
| "join_strs (JStr s # x # xs) = and_then (join_strs (x # xs)) (\<lambda>r. Inr (s @ '', '' @ r))"
| "join_strs (v # xs) = Inl TypeError"

text \<open>The same on strings, for stating what is joined.\<close>

fun comma_join :: "string list \<Rightarrow> string" where
  "comma_join [] = []"
| "comma_join [s] = s"
| "comma_join (s # t # ts) = s @ '', '' @ comma_join (t # ts)"

definition validate_field_value ::
  "(string \<Rightarrow> bool) \<Rightarrow> json \<Rightarrow> json \<Rightarrow> py_error + (bool \<times> string option)" where
  "validate_field_value float_of_str field_config value =
     and_then (py_get field_config ''type'' JNull) (\<lambda>field_type.
     if py_eq field_type (JStr ''number'') then
       (case py_float float_of_str value of
          Parsed \<Rightarrow> Inr (True, None)
        | ValueError_or_TypeError \<Rightarrow> Inr (False, Some ''Value must be a number'')
        | Overflow \<Rightarrow> Inl OverflowError)
     else if py_eq field_type (JStr ''categorical'') then
       and_then (py_get field_config ''allowed_values'' (JList [])) (\<lambda>allowed_values.
       and_then (py_in value allowed_values) (\<lambda>member.
       if \<not> member
       then and_then (py_iter allowed_values) (\<lambda>items.
            and_then (join_strs items) (\<lambda>joined.
            Inr (False, Some (''Value must be one of: '' @ joined))))
       else Inr (True, None)))
     else if py_eq field_type (JStr ''date'') then
       (case value of
          JStr s \<Rightarrow> Inr (True, None)
        | _ \<Rightarrow> Inr (False, Some ''Date must be a string''))
     else Inr (True, None))"

section \<open>The stored rows: \<^verbatim>\<open>models/membership.py\<close>, \<^verbatim>\<open>models/rdmp.py\<close>\<close>

text \<open>
  One record per table, with the columns the code reads or writes (\<^verbatim>\<open>created_at\<close> is set
  by the database server and read nowhere). Integer columns are Python ints. A table is
  the list of its rows in insertion order.
\<close>

record Membership =
  id' :: int
  project_id :: int
  user_id :: int
  role_name :: string
  created_by :: int

record RDMPTemplate =
  id' :: int
  name :: string
  description :: "string option"

record RDMPTemplateVersion =
  id' :: int
  template_id :: int
  version_int :: int
  created_by :: int
  template_json :: json

record RDMPVersion =
  id' :: int
  project_id :: int
  version_int :: int
  created_by :: int
  rdmp_json :: json
  provenance_json :: "json option"

record db =
  memberships :: "Membership list"
  rdmp_templates :: "RDMPTemplate list"
  rdmp_template_versions :: "RDMPTemplateVersion list"
  rdmp_versions :: "RDMPVersion list"

definition empty_db :: db where
  "empty_db = \<lparr>memberships = [], rdmp_templates = [], rdmp_template_versions = [], rdmp_versions = []\<rparr>"

text \<open>\<^verbatim>\<open>.first()\<close> of a query result.\<close>

fun first :: "'a list \<Rightarrow> 'a option" where
  "first [] = None"
| "first (r # rs) = Some r"

text \<open>The integer primary key the database gives a new row: one above the largest in use.\<close>

definition next_id :: "int list \<Rightarrow> int" where
  "next_id ids = fold max ids 0 + 1"

section \<open>Completeness of a sample: \<^verbatim>\<open>services/rdmp_service.py\<close>\<close>

text \<open>
  \<^verbatim>\<open>check_sample_completeness(sample, rdmp)\<close>. Of the sample only \<^verbatim>\<open>field_values\<close> and of a
  field value only \<^verbatim>\<open>field_key\<close> are read.
\<close>

record FieldValue =
  field_key :: string
  value_json :: json

record Sample =
  field_values :: "FieldValue list"

record completeness =
  is_complete :: bool
  missing_fields :: "json list"
  total_required :: nat
  total_filled :: nat

text \<open>\<^verbatim>\<open>[f for f in fields if f.get("required", False)]\<close>\<close>

fun required_fields_of :: "json list \<Rightarrow> py_error + json list" where
  "required_fields_of [] = Inr []"
| "required_fields_of (f # fs) =
     (case py_get f ''required'' (JBool False) of
        Inl e \<Rightarrow> Inl e
      | Inr r \<Rightarrow>
          (case required_fields_of fs of
             Inl e \<Rightarrow> Inl e
           | Inr rest \<Rightarrow> Inr (if py_truthy r then f # rest else rest)))"

text \<open>\<^verbatim>\<open>[f["key"] for f in required_fields if f["key"] not in existing_field_keys]\<close>\<close>

fun missing_of :: "json list \<Rightarrow> string list \<Rightarrow> py_error + json list" where
  "missing_of [] existing = Inr []"
| "missing_of (f # fs) existing =
     (case py_getitem f ''key'' of
        Inl e \<Rightarrow> Inl e
      | Inr k \<Rightarrow>
          (case py_set_contains (map JStr existing) k of
             Inl e \<Rightarrow> Inl e
           | Inr present \<Rightarrow>
               (case (if present then Inr [] else and_then (py_getitem f ''key'') (\<lambda>k'. Inr [k'])) of
                  Inl e \<Rightarrow> Inl e
                | Inr ks \<Rightarrow>
                    (case missing_of fs existing of
                       Inl e \<Rightarrow> Inl e
                     | Inr rest \<Rightarrow> Inr (ks @ rest)))))"

definition check_sample_completeness :: "Sample \<Rightarrow> RDMPVersion \<Rightarrow> py_error + completeness" where
  "check_sample_completeness sample rdmp =
     and_then (py_get (RDMPVersion.rdmp_json rdmp) ''fields'' (JList [])) (\<lambda>fields.
     and_then (py_iter fields) (\<lambda>fs.
     and_then (required_fields_of fs) (\<lambda>required_fields.
     let existing_field_keys = remdups (map field_key (field_values sample)) in
     and_then (missing_of required_fields existing_field_keys) (\<lambda>missing.
     Inr \<lparr>is_complete = (length missing = 0),
          missing_fields = missing,
          total_required = length required_fields,
          total_filled = length existing_field_keys\<rparr>))))"

section \<open>The request bodies: \<^verbatim>\<open>schemas/rdmp.py\<close>\<close>

text \<open>
  The pydantic models the handlers receive, and \<^verbatim>\<open>model_dump()\<close>, which turns a model
  into the dict that is validated and stored: every declared attribute becomes a key, an
  absent optional one with its default.
\<close>

record RDMPRole =
  name :: string
  permissions :: "(string \<times> bool) list"

record RDMPField =
  key :: string
  label :: string
  type :: string
  required :: bool
  allowed_values :: "string list option"
  visibility :: string

record RDMPIngestionRules =
  file_patterns :: "string list"
  prompts :: "string list"

record RDMPJSON =
  roles :: "RDMPRole list"
  fields' :: "RDMPField list"
  ingestion_rules :: RDMPIngestionRules

record RDMPTemplateCreate =
  name :: string
  description :: "string option"
  template_json :: RDMPJSON

record RDMPTemplateVersionCreate =
  template_json :: RDMPJSON

record RDMPVersionCreate =
  rdmp_json :: RDMPJSON
  provenance_json :: "json option"

definition model_dump_RDMPRole :: "RDMPRole \<Rightarrow> json" where
  "model_dump_RDMPRole r =
     JDict [(''name'', JStr (RDMPRole.name r)),
            (''permissions'', JDict (map (\<lambda>(k, b). (k, JBool b)) (permissions r)))]"

definition model_dump_RDMPField :: "RDMPField \<Rightarrow> json" where
  "model_dump_RDMPField f =
     JDict [(''key'', JStr (key f)),
            (''label'', JStr (label f)),
            (''type'', JStr (type f)),
            (''required'', JBool (required f)),
            (''allowed_values'', (case allowed_values f of None \<Rightarrow> JNull | Some vs \<Rightarrow> JList (map JStr vs))),
            (''visibility'', JStr (visibility f))]"

definition model_dump_RDMPIngestionRules :: "RDMPIngestionRules \<Rightarrow> json" where
  "model_dump_RDMPIngestionRules g =
     JDict [(''file_patterns'', JList (map JStr (file_patterns g))),
            (''prompts'', JList (map JStr (prompts g)))]"

definition model_dump :: "RDMPJSON \<Rightarrow> json" where
  "model_dump b =
     JDict [(''roles'', JList (map model_dump_RDMPRole (roles b))),
            (''fields'', JList (map model_dump_RDMPField (fields' b))),
            (''ingestion_rules'', model_dump_RDMPIngestionRules (ingestion_rules b))]"

section \<open>Reading the current RDMP: \<^verbatim>\<open>services/rdmp_service.py\<close>\<close>

text \<open>
  \<^verbatim>\<open>db.query(RDMPVersion).filter(project_id == pid).order_by(version_int.desc()).first()\<close>
\<close>

definition get_current_rdmp :: "db \<Rightarrow> int \<Rightarrow> RDMPVersion option" where
  "get_current_rdmp db pid =
     first (sort_key (\<lambda>r. - RDMPVersion.version_int r)
              (filter (\<lambda>r. RDMPVersion.project_id r = pid) (rdmp_versions db)))"

section \<open>Permissions: \<^verbatim>\<open>services/permission_service.py\<close>\<close>

definition no_permissions :: json where
  "no_permissions =
     JDict [(''can_edit_metadata'', JBool False),
            (''can_edit_paths'', JBool False),
            (''can_create_release'', JBool False),
            (''can_manage_rdmp'', JBool False)]"

text \<open>
  \<^verbatim>\<open>next((r for r in roles if r["name"] == membership.role_name), None)\<close>: the roles are
  read one by one up to the first match.
\<close>

fun find_role :: "json list \<Rightarrow> string \<Rightarrow> py_error + json option" where
  "find_role [] rn = Inr None"
| "find_role (r # rs) rn =
     (case py_getitem r ''name'' of
        Inl e \<Rightarrow> Inl e
      | Inr n \<Rightarrow> if py_eq n (JStr rn) then Inr (Some r) else find_role rs rn)"

definition get_user_permissions :: "db \<Rightarrow> int \<Rightarrow> int \<Rightarrow> py_error + json" where
  "get_user_permissions db uid pid =
     (case first (filter (\<lambda>m. Membership.project_id m = pid \<and> Membership.user_id m = uid)
                    (memberships db)) of
        None \<Rightarrow> Inr no_permissions
      | Some membership \<Rightarrow>
          (case get_current_rdmp db pid of
             None \<Rightarrow> Inr no_permissions
           | Some rdmp \<Rightarrow>
               and_then (py_get (RDMPVersion.rdmp_json rdmp) ''roles'' (JList [])) (\<lambda>rs.
               and_then (py_iter rs) (\<lambda>items.
               and_then (find_role items (role_name membership)) (\<lambda>role.
               case role of
                 None \<Rightarrow> Inr no_permissions
               | Some r \<Rightarrow>
                   if \<not> py_truthy r then Inr no_permissions
                   else py_get r ''permissions'' (JDict []))))))"

text \<open>\<^verbatim>\<open>check_permission\<close>: \<^verbatim>\<open>permissions.get(permission_name, False)\<close>.\<close>

definition check_permission :: "db \<Rightarrow> int \<Rightarrow> int \<Rightarrow> string \<Rightarrow> py_error + json" where
  "check_permission db uid pid permission_name =
     and_then (get_user_permissions db uid pid) (\<lambda>perms.
     py_get perms permission_name (JBool False))"

section \<open>Appending versions: \<^verbatim>\<open>api/rdmp.py\<close>\<close>

text \<open>
  What a handler can end with instead of a response: an \<^verbatim>\<open>HTTPException\<close> it raises
  itself, the \<^verbatim>\<open>IntegrityError\<close> of a uniqueness constraint, which no handler catches,
  or an exception out of the validator.
\<close>

datatype http_detail = Detail string | Schema_detail string "message list"

datatype api_error = HTTPException int http_detail | IntegrityError | Uncaught py_error

text \<open>
  \<^verbatim>\<open>db.add(row); db.commit()\<close> under the table's uniqueness constraint: the INSERT either
  appends the row, with a fresh primary key, or fails and leaves the table as it was.
\<close>

definition insert_rdmp_version ::
  "db \<Rightarrow> int \<Rightarrow> int \<Rightarrow> int \<Rightarrow> json \<Rightarrow> json option \<Rightarrow> api_error + (db \<times> RDMPVersion)" where
  "insert_rdmp_version db pid v author body prov =
     (if \<exists>r \<in> set (rdmp_versions db). RDMPVersion.project_id r = pid \<and> RDMPVersion.version_int r = v
      then Inl IntegrityError
      else let row = \<lparr>RDMPVersion.id' = next_id (map RDMPVersion.id' (rdmp_versions db)),
                        project_id = pid, version_int = v, created_by = author,
                        rdmp_json = body, provenance_json = prov\<rparr>
           in Inr (db\<lparr>rdmp_versions := rdmp_versions db @ [row]\<rparr>, row))"

definition insert_template_version ::
  "db \<Rightarrow> int \<Rightarrow> int \<Rightarrow> int \<Rightarrow> json \<Rightarrow> api_error + (db \<times> RDMPTemplateVersion)" where
  "insert_template_version db tid v author body =
     (if \<exists>r \<in> set (rdmp_template_versions db).
           RDMPTemplateVersion.template_id r = tid \<and> RDMPTemplateVersion.version_int r = v
      then Inl IntegrityError
      else let row = \<lparr>RDMPTemplateVersion.id' = next_id (map RDMPTemplateVersion.id' (rdmp_template_versions db)),
                        template_id = tid, version_int = v, created_by = author,
                        template_json = body\<rparr>
           in Inr (db\<lparr>rdmp_template_versions := rdmp_template_versions db @ [row]\<rparr>, row))"

definition insert_template :: "db \<Rightarrow> string \<Rightarrow> string option \<Rightarrow> api_error + (db \<times> RDMPTemplate)" where
  "insert_template db n d =
     (if \<exists>t \<in> set (rdmp_templates db). RDMPTemplate.name t = n
      then Inl IntegrityError
      else let row = \<lparr>RDMPTemplate.id' = next_id (map RDMPTemplate.id' (rdmp_templates db)),
                        name = n, description = d\<rparr>
           in Inr (db\<lparr>rdmp_templates := rdmp_templates db @ [row]\<rparr>, row))"

text \<open>
  \<^verbatim>\<open>create_project_rdmp_version\<close>. The handler reads the latest version and later
  commits the new row; other requests may commit in between. \<open>snap\<close> is the store as the
  query saw it, \<open>db\<close> the store the INSERT meets. The result is the new store and the
  returned row, or the error; after an error the store is the unchanged \<open>db\<close>. Foreign
  keys (that the project and the user exist) are not part of the model.
\<close>

definition create_project_rdmp_version_at ::
  "db \<Rightarrow> db \<Rightarrow> int \<Rightarrow> RDMPVersionCreate \<Rightarrow> int \<Rightarrow> api_error + (db \<times> RDMPVersion)" where
  "create_project_rdmp_version_at snap db pid rdmp_data current_user_id =
     (case validate_rdmp_schema (model_dump (RDMPVersionCreate.rdmp_json rdmp_data)) of
        Inl e \<Rightarrow> Inl (Uncaught e)
      | Inr (is_valid, errors) \<Rightarrow>
          if \<not> is_valid
          then Inl (HTTPException 400 (Schema_detail ''Invalid RDMP schema'' errors))
          else
            let latest_version =
                  first (sort_key (\<lambda>r. - RDMPVersion.version_int r)
                           (filter (\<lambda>r. RDMPVersion.project_id r = pid) (rdmp_versions snap)));
                next_version_int =
                  (case latest_version of Some l \<Rightarrow> RDMPVersion.version_int l + 1 | None \<Rightarrow> 1)
            in insert_rdmp_version db pid next_version_int current_user_id
                 (model_dump (RDMPVersionCreate.rdmp_json rdmp_data))
                 (RDMPVersionCreate.provenance_json rdmp_data))"

text \<open>A request that runs alone: the query and the INSERT see the same store.\<close>

definition create_project_rdmp_version ::
  "db \<Rightarrow> int \<Rightarrow> RDMPVersionCreate \<Rightarrow> int \<Rightarrow> api_error + (db \<times> RDMPVersion)" where
  "create_project_rdmp_version db = create_project_rdmp_version_at db db"

text \<open>\<^verbatim>\<open>create_template_version\<close>, in the same way.\<close>

definition create_template_version_at ::
  "db \<Rightarrow> db \<Rightarrow> int \<Rightarrow> RDMPTemplateVersionCreate \<Rightarrow> int \<Rightarrow> api_error + (db \<times> RDMPTemplateVersion)" where
  "create_template_version_at snap db tid version_data current_user_id =
     (case first (filter (\<lambda>t. RDMPTemplate.id' t = tid) (rdmp_templates snap)) of
        None \<Rightarrow> Inl (HTTPException 404 (Detail ''Template not found''))
      | Some template \<Rightarrow>
          (case validate_rdmp_schema (model_dump (RDMPTemplateVersionCreate.template_json version_data)) of
             Inl e \<Rightarrow> Inl (Uncaught e)
           | Inr (is_valid, errors) \<Rightarrow>
               if \<not> is_valid
               then Inl (HTTPException 400 (Schema_detail ''Invalid RDMP schema'' errors))
               else
                 let latest_version =
                       first (sort_key (\<lambda>r. - RDMPTemplateVersion.version_int r)
                                (filter (\<lambda>r. RDMPTemplateVersion.template_id r = tid)
                                   (rdmp_template_versions snap)));
                     next_version_int =
                       (case latest_version of
                          Some l \<Rightarrow> RDMPTemplateVersion.version_int l + 1 | None \<Rightarrow> 1)
                 in insert_template_version db tid next_version_int current_user_id
                      (model_dump (RDMPTemplateVersionCreate.template_json version_data))))"

definition create_template_version ::
  "db \<Rightarrow> int \<Rightarrow> RDMPTemplateVersionCreate \<Rightarrow> int \<Rightarrow> api_error + (db \<times> RDMPTemplateVersion)" where
  "create_template_version db = create_template_version_at db db"

text \<open>
  \<^verbatim>\<open>create_template\<close>: the template row and its version 1 are written in one
  transaction, so a failing second INSERT leaves neither.
\<close>

definition create_template ::
  "db \<Rightarrow> RDMPTemplateCreate \<Rightarrow> int \<Rightarrow> api_error + (db \<times> RDMPTemplate)" where
  "create_template db template_data current_user_id =
     (case validate_rdmp_schema (model_dump (RDMPTemplateCreate.template_json template_data)) of
        Inl e \<Rightarrow> Inl (Uncaught e)
      | Inr (is_valid, errors) \<Rightarrow>
          if \<not> is_valid
          then Inl (HTTPException 400 (Schema_detail ''Invalid RDMP schema'' errors))
          else
            (case insert_template db (RDMPTemplateCreate.name template_data)
                    (RDMPTemplateCreate.description template_data) of
               Inl e \<Rightarrow> Inl e
             | Inr (db1, template) \<Rightarrow>
                 (case insert_template_version db1 (RDMPTemplate.id' template) 1 current_user_id
                         (model_dump (RDMPTemplateCreate.template_json template_data)) of
                    Inl e \<Rightarrow> Inl e
                  | Inr (db2, version) \<Rightarrow> Inr (db2, template))))"

text \<open>
  The stores the three handlers can produce from the empty one. An earlier store is one
  whose tables are initial segments of the present ones: rows are only ever appended.
  Memberships are written elsewhere and are left arbitrary.
\<close>

definition earlier :: "db \<Rightarrow> db \<Rightarrow> bool" where
  "earlier snap db \<longleftrightarrow>
     prefix (rdmp_templates snap) (rdmp_templates db) \<and>
     prefix (rdmp_template_versions snap) (rdmp_template_versions db) \<and>
     prefix (rdmp_versions snap) (rdmp_versions db)"

inductive reachable :: "db \<Rightarrow> bool" where
  start: "reachable empty_db"
| members: "reachable db \<Longrightarrow> reachable (db\<lparr>memberships := ms\<rparr>)"
| project_version:
    "reachable db \<Longrightarrow> earlier snap db \<Longrightarrow>
     create_project_rdmp_version_at snap db pid rdmp_data u = Inr (db', row) \<Longrightarrow> reachable db'"
| template_version:
    "reachable db \<Longrightarrow> earlier snap db \<Longrightarrow>
     create_template_version_at snap db tid version_data u = Inr (db', trow) \<Longrightarrow> reachable db'"
| template:
    "reachable db \<Longrightarrow> create_template db template_data u = Inr (db', t) \<Longrightarrow> reachable db'"

section \<open>The bodies on which the validator returns\<close>

text \<open>
  The shapes a role entry, a field entry and a body must have for every operation the
  validator applies to them to succeed. A role entry is read with \<^verbatim>\<open>in\<close> and, once a key
  is found, with a subscript; a field entry is also read with \<^verbatim>\<open>.get\<close>, which only a
  dict has.
\<close>

fun is_container :: "json \<Rightarrow> bool" where
  "is_container (JDict kvs) = True"
| "is_container (JList xs) = True"
| "is_container (JStr s) = True"
| "is_container v = False"

fun role_ok :: "json \<Rightarrow> bool" where
  "role_ok (JDict d) =
     ((case map_of d ''name'' of None \<Rightarrow> True | Some n \<Rightarrow> py_hashable n) \<and>
      (case map_of d ''permissions'' of None \<Rightarrow> True | Some p \<Rightarrow> is_container p))"
| "role_ok (JList xs) = (JStr ''name'' \<notin> set xs \<and> JStr ''permissions'' \<notin> set xs)"
| "role_ok (JStr s) = (\<not> py_str_contains s ''name'' \<and> \<not> py_str_contains s ''permissions'')"
| "role_ok v = False"

fun field_ok :: "json \<Rightarrow> bool" where
  "field_ok (JDict d) = (case map_of d ''key'' of None \<Rightarrow> True | Some k \<Rightarrow> py_hashable k)"
| "field_ok v = False"

fun entries_ok :: "(json \<Rightarrow> bool) \<Rightarrow> json option \<Rightarrow> bool" where
  "entries_ok ok (Some (JList xs)) = list_all ok xs"
| "entries_ok ok v = True"

fun well_shaped :: "json \<Rightarrow> bool" where
  "well_shaped (JDict kvs) =
     (entries_ok role_ok (map_of kvs ''roles'') \<and> entries_ok field_ok (map_of kvs ''fields''))"
| "well_shaped (JList xs) = (JStr ''roles'' \<notin> set xs \<and> JStr ''fields'' \<notin> set xs)"
| "well_shaped (JStr s) = (\<not> py_str_contains s ''roles'' \<and> \<not> py_str_contains s ''fields'')"
| "well_shaped v = False"

section \<open>Version numbers and stored bodies\<close>

text \<open>
  The latest version of a template, as \<^verbatim>\<open>create_template_version\<close> queries it; the
  version numbers of a scope in insertion order; the numbers \<open>1, 2, ..., n\<close>; and the
  two properties of a store that the handlers maintain.
\<close>

definition get_current_template_version :: "db \<Rightarrow> int \<Rightarrow> RDMPTemplateVersion option" where
  "get_current_template_version db tid =
     first (sort_key (\<lambda>r. - RDMPTemplateVersion.version_int r)
              (filter (\<lambda>r. RDMPTemplateVersion.template_id r = tid) (rdmp_template_versions db)))"

definition project_versions :: "db \<Rightarrow> int \<Rightarrow> int list" where
  "project_versions db pid =
     map RDMPVersion.version_int (filter (\<lambda>r. RDMPVersion.project_id r = pid) (rdmp_versions db))"

definition template_versions :: "db \<Rightarrow> int \<Rightarrow> int list" where
  "template_versions db tid =
     map RDMPTemplateVersion.version_int
       (filter (\<lambda>r. RDMPTemplateVersion.template_id r = tid) (rdmp_template_versions db))"

definition contiguous :: "int list \<Rightarrow> bool" where
  "contiguous vs \<longleftrightarrow> vs = map int [1..<Suc (length vs)]"

definition numbered :: "db \<Rightarrow> bool" where
  "numbered db \<longleftrightarrow>
     (\<forall>pid. contiguous (project_versions db pid)) \<and> (\<forall>tid. contiguous (template_versions db tid))"

definition stored_valid :: "db \<Rightarrow> bool" where
  "stored_valid db \<longleftrightarrow>
     (\<forall>r \<in> set (rdmp_versions db).
        (\<exists>b. RDMPVersion.rdmp_json r = model_dump b) \<and>
        validate_rdmp_schema (RDMPVersion.rdmp_json r) = Inr (True, [])) \<and>
     (\<forall>r \<in> set (rdmp_template_versions db).
        (\<exists>b. RDMPTemplateVersion.template_json r = model_dump b) \<and>
        validate_rdmp_schema (RDMPTemplateVersion.template_json r) = Inr (True, []))"

section \<open>Example documents and stores\<close>

text \<open>
  A body with two roles named Lead and a categorical field without \<^verbatim>\<open>allowed_values\<close>;
  a valid document, the same document with a role that lacks three permissions, and the
  stores that appending them produces.
\<close>

definition all_permissions :: json where
  "all_permissions = JDict (map (\<lambda>p. (p, JBool True)) required_perms)"

definition two_leads_body :: json where
  "two_leads_body =
     JDict [(''roles'', JList [JDict [(''name'', JStr ''Lead''), (''permissions'', all_permissions)],
                               JDict [(''name'', JStr ''Lead''), (''permissions'', all_permissions)]]),
            (''fields'', JList [JDict [(''key'', JStr ''grade''), (''type'', JStr ''categorical'')]])]"

definition lead_role :: RDMPRole where
  "lead_role =
     \<lparr>RDMPRole.name = ''Lead'',
      permissions = [(''can_edit_metadata'', True), (''can_edit_paths'', True),
                     (''can_create_release'', True), (''can_manage_rdmp'', False)]\<rparr>"

definition example_rdmp :: RDMPJSON where
  "example_rdmp =
     \<lparr>roles = [lead_role],
      fields' = [\<lparr>key = ''age'', label = ''Age'', type = ''number'', required = True,
                  allowed_values = None, visibility = ''collaborators''\<rparr>,
                 \<lparr>key = ''note'', label = ''Note'', type = ''string'', required = False,
                  allowed_values = None, visibility = ''private''\<rparr>,
                 \<lparr>key = ''sex'', label = ''Sex'', type = ''categorical'', required = True,
                  allowed_values = Some [''f'', ''m''], visibility = ''collaborators''\<rparr>],
      ingestion_rules = \<lparr>file_patterns = [], prompts = []\<rparr>\<rparr>"

definition partial_rdmp :: RDMPJSON where
  "partial_rdmp =
     example_rdmp\<lparr>roles := [\<lparr>RDMPRole.name = ''Lead'', permissions = [(''can_edit_metadata'', True)]\<rparr>]\<rparr>"

definition grade_field :: RDMPField where
  "grade_field =
     \<lparr>key = ''grade'', label = ''Grade'', type = ''categorical'', required = False,
      allowed_values = None, visibility = ''collaborators''\<rparr>"

definition grade_rdmp :: RDMPJSON where
  "grade_rdmp = example_rdmp\<lparr>fields' := [grade_field]\<rparr>"

definition example_request :: RDMPVersionCreate where
  "example_request = \<lparr>RDMPVersionCreate.rdmp_json = example_rdmp, provenance_json = None\<rparr>"

definition version_row :: "int \<Rightarrow> int \<Rightarrow> RDMPJSON \<Rightarrow> RDMPVersion" where
  "version_row i v b =
     \<lparr>RDMPVersion.id' = i, project_id = 1, version_int = v, created_by = 7,
      rdmp_json = model_dump b, provenance_json = None\<rparr>"

definition db_one :: db where
  "db_one = empty_db\<lparr>rdmp_versions := [version_row 1 1 example_rdmp]\<rparr>"

definition db_two :: db where
  "db_two = empty_db\<lparr>rdmp_versions := [version_row 1 1 example_rdmp, version_row 2 2 example_rdmp]\<rparr>"

definition lead_membership :: Membership where
  "lead_membership = \<lparr>Membership.id' = 1, project_id = 1, user_id = 7, role_name = ''Lead'', created_by = 7\<rparr>"

definition db_partial :: db where
  "db_partial = empty_db\<lparr>memberships := [lead_membership], rdmp_versions := [version_row 1 1 partial_rdmp]\<rparr>"

definition db_member :: db where
  "db_member = db_one\<lparr>memberships := [lead_membership]\<rparr>"

definition basic_template :: RDMPTemplate where
  "basic_template = \<lparr>RDMPTemplate.id' = 1, name = ''basic'', description = None\<rparr>"

definition template_row :: "int \<Rightarrow> int \<Rightarrow> RDMPJSON \<Rightarrow> RDMPTemplateVersion" where
  "template_row i v b =
     \<lparr>RDMPTemplateVersion.id' = i, template_id = 1, version_int = v, created_by = 7,
      template_json = model_dump b\<rparr>"

definition db_template :: db where
  "db_template = empty_db\<lparr>rdmp_templates := [basic_template],
                           rdmp_template_versions := [template_row 1 1 example_rdmp]\<rparr>"

definition db_template_two :: db where
  "db_template_two = empty_db\<lparr>rdmp_templates := [basic_template],
                           rdmp_template_versions := [template_row 1 1 example_rdmp, template_row 2 2 example_rdmp]\<rparr>"

definition db_three :: db where
  "db_three = empty_db\<lparr>rdmp_versions := [version_row 1 1 example_rdmp, version_row 2 2 example_rdmp,
                                            version_row 3 3 example_rdmp]\<rparr>"

section \<open>Basic facts about the Python operations\<close>

lemma and_then_Inl [simp]: "and_then (Inl e) f = Inl e"
  by (simp add: and_then_def)

lemma and_then_Inr [simp]: "and_then (Inr x) f = f x"
  by (simp add: and_then_def)

lemma py_eq_JStr [simp]: "py_eq a (JStr s) = (a = JStr s)"
  by (cases a) auto

section \<open>When the schema validator returns\<close>

lemma py_in_JStr_JDict [simp]: "py_in (JStr k) (JDict d) = Inr (map_of d k \<noteq> None)"
  by (auto simp: map_of_eq_None_iff image_iff)

lemma py_in_JStr_JList [simp]: "py_in (JStr k) (JList xs) = Inr (JStr k \<in> set xs)"
  by auto

lemma py_in_JStr_JStr [simp]: "py_in (JStr k) (JStr s) = Inr (py_str_contains s k)"
  by auto

lemma py_in_not_container [simp]: "\<not> is_container c \<Longrightarrow> py_in x c = Inl TypeError"
  by (cases c) auto

declare py_in.simps(1) [simp del]

lemma and_then_eq_Inr: "and_then m f = Inr y \<longleftrightarrow> (\<exists>x. m = Inr x \<and> f x = Inr y)"
  by (cases m) auto

lemma check_perms_container:
  "is_container perms \<Longrightarrow> \<exists>errs. check_perms ps perms (JDict d) i errors = Inr errs"
proof (induction ps arbitrary: errors)
  case Nil
  then show ?case by simp
next
  case (Cons p ps)
  then show ?case
    by (cases perms) (auto split: option.splits bool.splits)
qed

lemma check_perms_not_container:
  "\<not> is_container perms \<Longrightarrow> check_perms (p # ps) perms role i errors = Inl TypeError"
  by (cases perms) auto

lemma check_role_name_returns_iff:
  "(\<exists>res. check_role_name i r role_names errors = Inr res) \<longleftrightarrow>
   (case r of
      JDict d \<Rightarrow> (case map_of d ''name'' of None \<Rightarrow> True | Some n \<Rightarrow> py_hashable n)
    | JList xs \<Rightarrow> JStr ''name'' \<notin> set xs
    | JStr s \<Rightarrow> \<not> py_str_contains s ''name''
    | _ \<Rightarrow> False)"
  by (cases r) (auto simp: check_role_name_def py_set_contains_def split: option.splits)

lemma check_role_permissions_returns_iff:
  "(\<exists>res. check_role_permissions i r errors = Inr res) \<longleftrightarrow>
   (case r of
      JDict d \<Rightarrow> (case map_of d ''permissions'' of None \<Rightarrow> True | Some p \<Rightarrow> is_container p)
    | JList xs \<Rightarrow> JStr ''permissions'' \<notin> set xs
    | JStr s \<Rightarrow> \<not> py_str_contains s ''permissions''
    | _ \<Rightarrow> False)"
proof (cases r)
  case (JDict d)
  show ?thesis
  proof (cases "map_of d ''permissions''")
    case None
    then show ?thesis using JDict by (simp add: check_role_permissions_def)
  next
    case (Some p)
    then show ?thesis using JDict check_perms_container [of p required_perms d i errors]
        check_perms_not_container [of p "''can_edit_metadata''" _ "JDict d" i errors]
      by (cases "is_container p") (auto simp: check_role_permissions_def required_perms_def)
  qed
qed (auto simp: check_role_permissions_def)

lemma validate_role_returns_iff:
  "(\<exists>res. validate_role i r role_names errors = Inr res) \<longleftrightarrow> role_ok r"
proof -
  have "(\<exists>res. validate_role i r role_names errors = Inr res) \<longleftrightarrow>
        (\<exists>ns es. check_role_name i r role_names errors = Inr (ns, es) \<and>
                 (\<exists>es'. check_role_permissions i r es = Inr es'))"
    by (auto simp: validate_role_def and_then_eq_Inr)
  also have "\<dots> \<longleftrightarrow> (\<exists>res. check_role_name i r role_names errors = Inr res) \<and>
        (case r of
      JDict d \<Rightarrow> (case map_of d ''permissions'' of None \<Rightarrow> True | Some p \<Rightarrow> is_container p)
    | JList xs \<Rightarrow> JStr ''permissions'' \<notin> set xs
    | JStr s \<Rightarrow> \<not> py_str_contains s ''permissions''
    | _ \<Rightarrow> False)"
    using check_role_permissions_returns_iff [of i r] by auto
  also have "\<dots> \<longleftrightarrow> role_ok r"
    unfolding check_role_name_returns_iff by (cases r) auto
  finally show ?thesis .
qed

lemma validate_roles_returns_iff:
  "(\<exists>res. validate_roles rs i role_names errors = Inr res) \<longleftrightarrow> list_all role_ok rs"
proof (induction rs arbitrary: i role_names errors)
  case Nil
  show ?case by simp
next
  case (Cons r rs)
  show ?case
  proof (cases "validate_role i r role_names errors")
    case (Inl e)
    then show ?thesis using validate_role_returns_iff [of i r role_names errors] by auto
  next
    case (Inr res)
    then show ?thesis using validate_role_returns_iff [of i r role_names errors] Cons.IH
      by (cases res) auto
  qed
qed


lemma check_field_key_returns_iff:
  "(\<exists>res. check_field_key i (JDict d) field_keys errors = Inr res) \<longleftrightarrow>
   (case map_of d ''key'' of None \<Rightarrow> True | Some n \<Rightarrow> py_hashable n)"
  by (auto simp: check_field_key_def py_set_contains_def split: option.splits)

lemma check_field_label_returns: "\<exists>res. check_field_label i (JDict d) errors = Inr res"
  by (simp add: check_field_label_def)

lemma check_field_type_returns: "\<exists>res. check_field_type i (JDict d) errors = Inr res"
  by (auto simp: check_field_type_def field_types_def split: option.splits)

lemma check_field_visibility_returns: "\<exists>res. check_field_visibility i (JDict d) errors = Inr res"
  by (auto simp: check_field_visibility_def visibilities_def split: option.splits)

lemma check_field_allowed_values_returns: "\<exists>res. check_field_allowed_values i (JDict d) errors = Inr res"
  by (auto simp: check_field_allowed_values_def split: option.splits)

lemma check_field_allowed_values_raises:
  "(\<exists>d. f = JDict d) \<or> check_field_allowed_values i f errors = Inl AttributeError"
  by (cases f) (auto simp: check_field_allowed_values_def)

lemma validate_field_returns_iff:
  "(\<exists>res. validate_field i f field_keys errors = Inr res) \<longleftrightarrow> field_ok f"
proof (cases f)
  case (JDict d)
  have "(\<exists>res. validate_field i (JDict d) field_keys errors = Inr res) \<longleftrightarrow>
        (\<exists>res. check_field_key i (JDict d) field_keys errors = Inr res)"
    using check_field_label_returns [of i d] check_field_type_returns [of i d]
      check_field_visibility_returns [of i d] check_field_allowed_values_returns [of i d]
    by (fastforce simp: validate_field_def and_then_eq_Inr)
  then show ?thesis using JDict check_field_key_returns_iff [of i d field_keys errors] by auto
next
  case JNull
  then show ?thesis
    using check_field_allowed_values_raises [of f i] by (auto simp: validate_field_def and_then_eq_Inr)
next
  case (JBool b)
  then show ?thesis
    using check_field_allowed_values_raises [of f i] by (auto simp: validate_field_def and_then_eq_Inr)
next
  case (JInt n)
  then show ?thesis
    using check_field_allowed_values_raises [of f i] by (auto simp: validate_field_def and_then_eq_Inr)
next
  case (JFloat r)
  then show ?thesis
    using check_field_allowed_values_raises [of f i] by (auto simp: validate_field_def and_then_eq_Inr)
next
  case (JStr s)
  then show ?thesis
    using check_field_allowed_values_raises [of f i] by (auto simp: validate_field_def and_then_eq_Inr)
next
  case (JList xs)
  then show ?thesis
    using check_field_allowed_values_raises [of f i] by (auto simp: validate_field_def and_then_eq_Inr)
qed

lemma validate_fields_returns_iff:
  "(\<exists>res. validate_fields fs i field_keys errors = Inr res) \<longleftrightarrow> list_all field_ok fs"
proof (induction fs arbitrary: i field_keys errors)
  case Nil
  show ?case by simp
next
  case (Cons f fs)
  show ?case
  proof (cases "validate_field i f field_keys errors")
    case (Inl e)
    then show ?thesis using validate_field_returns_iff [of i f field_keys errors] by auto
  next
    case (Inr res)
    then show ?thesis using validate_field_returns_iff [of i f field_keys errors] Cons.IH
      by (cases res) auto
  qed
qed


lemma roles_section_returns_iff:
  "(\<exists>res. roles_section body errors = Inr res) \<longleftrightarrow>
   (case body of
      JDict kvs \<Rightarrow> entries_ok role_ok (map_of kvs ''roles'')
    | JList xs \<Rightarrow> JStr ''roles'' \<notin> set xs
    | JStr s \<Rightarrow> \<not> py_str_contains s ''roles''
    | _ \<Rightarrow> False)"
proof (cases body)
  case (JDict kvs)
  show ?thesis
  proof (cases "map_of kvs ''roles''")
    case None
    then show ?thesis using JDict by (simp add: roles_section_def)
  next
    case (Some v)
    show ?thesis
    proof (cases v)
      case (JList rs)
      then show ?thesis using JDict Some validate_roles_returns_iff [of rs 0 "[]" errors]
        by (cases rs) (auto simp: roles_section_def)
    qed (use JDict Some in \<open>auto simp: roles_section_def\<close>)
  qed
qed (auto simp: roles_section_def)

lemma fields_section_returns_iff:
  "(\<exists>res. fields_section body errors = Inr res) \<longleftrightarrow>
   (case body of
      JDict kvs \<Rightarrow> entries_ok field_ok (map_of kvs ''fields'')
    | JList xs \<Rightarrow> JStr ''fields'' \<notin> set xs
    | JStr s \<Rightarrow> \<not> py_str_contains s ''fields''
    | _ \<Rightarrow> False)"
proof (cases body)
  case (JDict kvs)
  show ?thesis
  proof (cases "map_of kvs ''fields''")
    case None
    then show ?thesis using JDict by (simp add: fields_section_def)
  next
    case (Some v)
    show ?thesis
    proof (cases v)
      case (JList fs)
      then show ?thesis using JDict Some validate_fields_returns_iff [of fs 0 "[]" errors]
        by (cases fs) (auto simp: fields_section_def)
    qed (use JDict Some in \<open>auto simp: fields_section_def\<close>)
  qed
qed (auto simp: fields_section_def)

lemma py_in_JStr_container: "is_container c \<Longrightarrow> \<exists>b. py_in (JStr k) c = Inr b"
  by (cases c) auto

lemma validate_rdmp_schema_returns_iff:
  "(\<exists>res. validate_rdmp_schema body = Inr res) \<longleftrightarrow> well_shaped body"
proof -
  have r: "(\<exists>e3. roles_section body e1 = Inr e3) \<longleftrightarrow> (\<exists>e3. roles_section body [] = Inr e3)" for e1
    unfolding roles_section_returns_iff ..
  have f: "(\<exists>e4. fields_section body e3 = Inr e4) \<longleftrightarrow> (\<exists>e4. fields_section body [] = Inr e4)" for e3
    unfolding fields_section_returns_iff ..
  have "(\<exists>res. validate_rdmp_schema body = Inr res) \<longleftrightarrow>
        (\<exists>e3. roles_section body [] = Inr e3) \<and> (\<exists>e4. fields_section body [] = Inr e4)"
  proof
    assume "\<exists>res. validate_rdmp_schema body = Inr res"
    then obtain e1 e3 e4 where "roles_section body e1 = Inr e3" "fields_section body e3 = Inr e4"
      by (auto simp: validate_rdmp_schema_def and_then_eq_Inr Let_def)
    then show "(\<exists>e3. roles_section body [] = Inr e3) \<and> (\<exists>e4. fields_section body [] = Inr e4)"
      using r f by blast
  next
    assume a: "(\<exists>e3. roles_section body [] = Inr e3) \<and> (\<exists>e4. fields_section body [] = Inr e4)"
    then have "is_container body"
      unfolding roles_section_returns_iff by (cases body) auto
    then obtain hr hf where h: "py_in (JStr ''roles'') body = Inr hr" "py_in (JStr ''fields'') body = Inr hf"
      using py_in_JStr_container by blast
    define e2 where "e2 = (if \<not> hf then (if \<not> hr then [[Lit ''Missing 'roles' key'']] else []) @ [[Lit ''Missing 'fields' key'']]
                           else (if \<not> hr then [[Lit ''Missing 'roles' key'']] else []))"
    obtain e3 where e3: "roles_section body e2 = Inr e3"
      using a r by blast
    obtain e4 where e4: "fields_section body e3 = Inr e4"
      using a f by blast
    have "validate_rdmp_schema body = Inr (length e4 = 0, e4)"
      using h e3 e4 by (simp add: validate_rdmp_schema_def Let_def e2_def)
    then show "\<exists>res. validate_rdmp_schema body = Inr res" by blast
  qed
  then show ?thesis
    unfolding roles_section_returns_iff fields_section_returns_iff
    by (cases body) auto
qed

lemma validate_rdmp_schema_ok: "validate_rdmp_schema body = Inr (ok, errors) \<Longrightarrow> ok = (errors = [])"
  by (auto simp: validate_rdmp_schema_def and_then_eq_Inr Let_def)

section \<open>What the schema validator reports\<close>

lemma check_perms_mono:
  "check_perms ps perms role i errors = Inr errs \<Longrightarrow> set errors \<subseteq> set errs"
proof (induction ps arbitrary: errors)
  case Nil
  then show ?case by simp
next
  case (Cons p ps)
  show ?case
  proof (cases "py_in (JStr p) perms")
    case (Inl e)
    then show ?thesis using Cons.prems by simp
  next
    case (Inr present)
    show ?thesis
    proof (cases present)
      case True
      then show ?thesis using Cons Inr by simp
    next
      case False
      then obtain n where n: "py_get role ''name'' (JInt (int i)) = Inr n"
        using Cons.prems Inr by (cases "py_get role ''name'' (JInt (int i))") auto
      then have "set (errors @ [[Lit (''Role '' @ [sq]), Fmt n, Lit (sq # '' missing permission '' @ [sq]),
                           Fmt (JStr p), Lit [sq]]]) \<subseteq> set errs"
        using Cons.prems Inr False by (intro Cons.IH) simp
      then show ?thesis by simp
    qed
  qed
qed

lemma check_role_name_mono:
  "check_role_name i r names errors = Inr (names', errs) \<Longrightarrow> set errors \<subseteq> set errs \<and> set names \<subseteq> set names'"
  by (auto simp: check_role_name_def and_then_eq_Inr py_set_add_def split: if_splits)

lemma check_role_permissions_mono:
  "check_role_permissions i r errors = Inr errs \<Longrightarrow> set errors \<subseteq> set errs"
  by (auto simp: check_role_permissions_def and_then_eq_Inr split: if_splits dest: check_perms_mono)

lemma validate_role_mono:
  "validate_role i r names errors = Inr (names', errs) \<Longrightarrow> set errors \<subseteq> set errs \<and> set names \<subseteq> set names'"
  by (auto simp: validate_role_def and_then_eq_Inr dest!: check_role_name_mono check_role_permissions_mono)

lemma validate_roles_mono:
  "validate_roles rs i names errors = Inr errs \<Longrightarrow> set errors \<subseteq> set errs"
proof (induction rs arbitrary: i names errors)
  case Nil
  then show ?case by simp
next
  case (Cons r rs)
  then show ?case
    by (fastforce split: sum.splits dest: validate_role_mono)
qed


lemma check_field_key_mono:
  "check_field_key i f keys errors = Inr (keys', errs) \<Longrightarrow> set errors \<subseteq> set errs"
  by (auto simp: check_field_key_def and_then_eq_Inr split: if_splits)

lemma check_field_label_mono:
  "check_field_label i f errors = Inr errs \<Longrightarrow> set errors \<subseteq> set errs"
  by (auto simp: check_field_label_def and_then_eq_Inr split: if_splits)

lemma check_field_type_mono:
  "check_field_type i f errors = Inr errs \<Longrightarrow> set errors \<subseteq> set errs"
  by (auto simp: check_field_type_def and_then_eq_Inr split: if_splits)

lemma check_field_visibility_mono:
  "check_field_visibility i f errors = Inr errs \<Longrightarrow> set errors \<subseteq> set errs"
  by (auto simp: check_field_visibility_def and_then_eq_Inr split: if_splits)

lemma check_field_allowed_values_mono:
  "check_field_allowed_values i f errors = Inr errs \<Longrightarrow> set errors \<subseteq> set errs"
  by (auto simp: check_field_allowed_values_def and_then_eq_Inr split: if_splits)

lemma validate_field_steps:
  assumes "validate_field i f keys errors = Inr (keys', errs)"
  obtains e1 e2 e3 e4 where
    "check_field_key i f keys errors = Inr (keys', e1)"
    "check_field_label i f e1 = Inr e2"
    "check_field_type i f e2 = Inr e3"
    "check_field_visibility i f e3 = Inr e4"
    "check_field_allowed_values i f e4 = Inr errs"
  using assms by (auto simp: validate_field_def and_then_eq_Inr)

lemma validate_field_mono:
  assumes "validate_field i f keys errors = Inr (keys', errs)"
  shows "set errors \<subseteq> set errs"
proof -
  from assms obtain e1 e2 e3 e4 where
    "check_field_key i f keys errors = Inr (keys', e1)"
    "check_field_label i f e1 = Inr e2"
    "check_field_type i f e2 = Inr e3"
    "check_field_visibility i f e3 = Inr e4"
    "check_field_allowed_values i f e4 = Inr errs"
    by (rule validate_field_steps)
  then have "set errors \<subseteq> set e1" "set e1 \<subseteq> set e2" "set e2 \<subseteq> set e3" "set e3 \<subseteq> set e4" "set e4 \<subseteq> set errs"
    by (blast dest: check_field_key_mono check_field_label_mono check_field_type_mono
      check_field_visibility_mono check_field_allowed_values_mono)+
  then show ?thesis by blast
qed

lemma validate_fields_mono:
  "validate_fields fs i keys errors = Inr errs \<Longrightarrow> set errors \<subseteq> set errs"
proof (induction fs arbitrary: i keys errors)
  case Nil
  then show ?case by simp
next
  case (Cons f fs)
  then show ?case
    by (fastforce split: sum.splits dest: validate_field_mono)
qed

lemma roles_section_cases:
  assumes "roles_section body errors = Inr errs"
  shows "errs = errors \<or> errs = errors @ [[Lit (sq # ''roles' must be a non-empty list'')]] \<or>
         (\<exists>rs. py_getitem body ''roles'' = Inr (JList rs) \<and> rs \<noteq> [] \<and> validate_roles rs 0 [] errors = Inr errs)"
proof -
  from assms obtain h where h: "py_in (JStr ''roles'') body = Inr h"
    by (auto simp: roles_section_def and_then_eq_Inr)
  show ?thesis
  proof (cases h)
    case False
    then show ?thesis using assms h by (simp add: roles_section_def)
  next
    case True
    then obtain v where v: "py_getitem body ''roles'' = Inr v"
      using assms h by (auto simp: roles_section_def and_then_eq_Inr)
    show ?thesis
    proof (cases "\<exists>r rs. v = JList (r # rs)")
      case True
      then show ?thesis using assms h v \<open>h\<close> by (auto simp: roles_section_def simp del: validate_roles.simps)
    next
      case False
      then have "errs = errors @ [[Lit (sq # ''roles' must be a non-empty list'')]]"
        using assms h v \<open>h\<close> by (auto simp: roles_section_def split: json.splits list.splits)
      then show ?thesis by simp
    qed
  qed
qed

lemma fields_section_cases:
  assumes "fields_section body errors = Inr errs"
  shows "errs = errors \<or> errs = errors @ [[Lit (sq # ''fields' must be a non-empty list'')]] \<or>
         (\<exists>fs. py_getitem body ''fields'' = Inr (JList fs) \<and> fs \<noteq> [] \<and> validate_fields fs 0 [] errors = Inr errs)"
proof -
  from assms obtain h where h: "py_in (JStr ''fields'') body = Inr h"
    by (auto simp: fields_section_def and_then_eq_Inr)
  show ?thesis
  proof (cases h)
    case False
    then show ?thesis using assms h by (simp add: fields_section_def)
  next
    case True
    then obtain v where v: "py_getitem body ''fields'' = Inr v"
      using assms h by (auto simp: fields_section_def and_then_eq_Inr)
    show ?thesis
    proof (cases "\<exists>r rs. v = JList (r # rs)")
      case True
      then show ?thesis using assms h v \<open>h\<close> by (auto simp: fields_section_def simp del: validate_fields.simps)
    next
      case False
      then have "errs = errors @ [[Lit (sq # ''fields' must be a non-empty list'')]]"
        using assms h v \<open>h\<close> by (auto simp: fields_section_def split: json.splits list.splits)
      then show ?thesis by simp
    qed
  qed
qed

lemma roles_section_mono:
  "roles_section body errors = Inr errs \<Longrightarrow> set errors \<subseteq> set errs"
  using roles_section_cases [of body errors errs] validate_roles_mono by fastforce

lemma fields_section_mono:
  "fields_section body errors = Inr errs \<Longrightarrow> set errors \<subseteq> set errs"
  using fields_section_cases [of body errors errs] validate_fields_mono by fastforce

text \<open>A name already seen is reported.\<close>

lemma check_role_name_seen:
  assumes "check_role_name i (JDict d) names errors = Inr (names', errs)"
    and "map_of d ''name'' = Some (JStr n)"
  shows "JStr n \<in> set names'" and "JStr n \<in> set names \<Longrightarrow> [Lit ''Duplicate role name: '', Fmt (JStr n)] \<in> set errs"
  using assms by (auto simp: check_role_name_def py_set_contains_def py_set_add_def split: if_splits)

lemma validate_role_seen:
  assumes "validate_role i (JDict d) names errors = Inr (names', errs)"
    and "map_of d ''name'' = Some (JStr n)"
  shows "JStr n \<in> set names'" and "JStr n \<in> set names \<Longrightarrow> [Lit ''Duplicate role name: '', Fmt (JStr n)] \<in> set errs"
proof -
  obtain e1 where 1: "check_role_name i (JDict d) names errors = Inr (names', e1)"
    and 2: "check_role_permissions i (JDict d) e1 = Inr errs"
    using assms(1) by (auto simp: validate_role_def and_then_eq_Inr)
  show "JStr n \<in> set names'"
    using check_role_name_seen(1) [OF 1 assms(2)] .
  show "[Lit ''Duplicate role name: '', Fmt (JStr n)] \<in> set errs" if "JStr n \<in> set names"
    using check_role_name_seen(2) [OF 1 assms(2) that] check_role_permissions_mono [OF 2] by blast
qed

lemma validate_roles_seen:
  assumes "validate_roles rs i names errors = Inr errs"
    and "b < length rs" and "rs ! b = JDict rb" and "map_of rb ''name'' = Some (JStr n)"
    and "JStr n \<in> set names"
  shows "[Lit ''Duplicate role name: '', Fmt (JStr n)] \<in> set errs"
  using assms
proof (induction rs arbitrary: i names errors b)
  case Nil
  then show ?case by simp
next
  case (Cons r rs)
  from Cons.prems(1) obtain names1 errors1
    where step: "validate_role i r names errors = Inr (names1, errors1)"
      and rest: "validate_roles rs (Suc i) names1 errors1 = Inr errs"
    by (auto split: sum.splits)
  show ?case
  proof (cases b)
    case 0
    then have "r = JDict rb" using Cons.prems(3) by simp
    then have "[Lit ''Duplicate role name: '', Fmt (JStr n)] \<in> set errors1"
      using validate_role_seen(2) step Cons.prems(4,5) by blast
    then show ?thesis using validate_roles_mono [OF rest] by blast
  next
    case (Suc b')
    have "JStr n \<in> set names1"
      using validate_role_mono [OF step] Cons.prems(5) by blast
    then show ?thesis
      using Cons.IH [OF rest, of b'] Cons.prems(2,3,4) Suc by simp
  qed
qed

lemma validate_roles_duplicate:
  assumes "validate_roles rs i names errors = Inr errs"
    and "a < b" and "b < length rs"
    and "rs ! a = JDict ra" and "rs ! b = JDict rb"
    and "map_of ra ''name'' = Some (JStr n)" and "map_of rb ''name'' = Some (JStr n)"
  shows "[Lit ''Duplicate role name: '', Fmt (JStr n)] \<in> set errs"
  using assms
proof (induction rs arbitrary: i names errors a b)
  case Nil
  then show ?case by simp
next
  case (Cons r rs)
  from Cons.prems(1) obtain names1 errors1
    where step: "validate_role i r names errors = Inr (names1, errors1)"
      and rest: "validate_roles rs (Suc i) names1 errors1 = Inr errs"
    by (auto split: sum.splits)
  obtain b' where b': "b = Suc b'"
    using Cons.prems(2) by (cases b) auto
  show ?case
  proof (cases a)
    case 0
    then have "r = JDict ra" using Cons.prems(4) by simp
    then have "JStr n \<in> set names1"
      using validate_role_seen(1) step Cons.prems(6) by blast
    then show ?thesis
      using validate_roles_seen [OF rest, of b' rb n] Cons.prems(3,5,7) b' by simp
  next
    case (Suc a')
    then show ?thesis
      using Cons.IH [OF rest, of a' b'] Cons.prems b' by simp
  qed
qed

lemma check_field_allowed_values_missing:
  assumes "check_field_allowed_values i (JDict f) errors = Inr errs"
    and "map_of f ''type'' = Some (JStr ''categorical'')" and "map_of f ''allowed_values'' = None"
  shows "[Lit (''Categorical field '' @ [sq]),
          Fmt (case map_of f ''key'' of Some k \<Rightarrow> k | None \<Rightarrow> JInt (int i)),
          Lit (sq # '' missing 'allowed_values'' @ [sq])] \<in> set errs"
  using assms by (auto simp: check_field_allowed_values_def split: option.splits)

lemma validate_field_categorical:
  assumes "validate_field i (JDict f) keys errors = Inr (keys', errs)"
    and "map_of f ''type'' = Some (JStr ''categorical'')" and "map_of f ''allowed_values'' = None"
  shows "[Lit (''Categorical field '' @ [sq]),
          Fmt (case map_of f ''key'' of Some k \<Rightarrow> k | None \<Rightarrow> JInt (int i)),
          Lit (sq # '' missing 'allowed_values'' @ [sq])] \<in> set errs"
proof -
  from assms(1) obtain e4 where "check_field_allowed_values i (JDict f) e4 = Inr errs"
    by (rule validate_field_steps)
  then show ?thesis
    using check_field_allowed_values_missing assms(2,3) by blast
qed

lemma validate_fields_categorical:
  assumes "validate_fields fs i keys errors = Inr errs"
    and "j < length fs" and "fs ! j = JDict f"
    and "map_of f ''type'' = Some (JStr ''categorical'')" and "map_of f ''allowed_values'' = None"
  shows "[Lit (''Categorical field '' @ [sq]),
          Fmt (case map_of f ''key'' of Some k \<Rightarrow> k | None \<Rightarrow> JInt (int (i + j))),
          Lit (sq # '' missing 'allowed_values'' @ [sq])] \<in> set errs"
  using assms
proof (induction fs arbitrary: i keys errors j)
  case Nil
  then show ?case by simp
next
  case (Cons x fs)
  from Cons.prems(1) obtain keys1 errors1
    where step: "validate_field i x keys errors = Inr (keys1, errors1)"
      and rest: "validate_fields fs (Suc i) keys1 errors1 = Inr errs"
    by (auto split: sum.splits)
  show ?case
  proof (cases j)
    case 0
    then have "x = JDict f" using Cons.prems(3) by simp
    then have "[Lit (''Categorical field '' @ [sq]),
          Fmt (case map_of f ''key'' of Some k \<Rightarrow> k | None \<Rightarrow> JInt (int i)),
          Lit (sq # '' missing 'allowed_values'' @ [sq])] \<in> set errors1"
      using validate_field_categorical step Cons.prems(4,5) by blast
    then show ?thesis using validate_fields_mono [OF rest] 0
      by (cases "map_of f ''key''") auto
  next
    case (Suc j')
    then show ?thesis
      using Cons.IH [OF rest, of j'] Cons.prems(2,3,4,5)
      by (cases "map_of f ''key''") auto
  qed
qed

lemma roles_section_list:
  "map_of kvs ''roles'' = Some (JList rs) \<Longrightarrow> rs \<noteq> [] \<Longrightarrow>
   roles_section (JDict kvs) errors = validate_roles rs 0 [] errors"
  by (cases rs) (simp_all add: roles_section_def del: validate_roles.simps)

lemma fields_section_list:
  "map_of kvs ''fields'' = Some (JList fs) \<Longrightarrow> fs \<noteq> [] \<Longrightarrow>
   fields_section (JDict kvs) errors = validate_fields fs 0 [] errors"
  by (cases fs) (simp_all add: fields_section_def del: validate_fields.simps)

lemma validate_rdmp_schema_sections:
  assumes "validate_rdmp_schema body = Inr (ok, errs)"
  obtains e2 e3 where "roles_section body e2 = Inr e3" "fields_section body e3 = Inr errs"
    "ok = (errs = [])"
  using assms by (auto simp: validate_rdmp_schema_def and_then_eq_Inr Let_def)




text \<open>
  C7. On a body on which it returns, the schema validator fails and reports
  \<^verbatim>\<open>Duplicate role name: n\<close> when two roles have the same name \<open>n\<close>, and fails and reports
  \<^verbatim>\<open>Categorical field 'k' missing 'allowed_values'\<close> for a field of type categorical
  without an \<^verbatim>\<open>allowed_values\<close> entry, \<open>k\<close> being the field's key, or its index when it
  has no key.
\<close>

theorem validator_reports_duplicates_and_categorical:
  assumes "well_shaped (JDict kvs)"
  shows "(map_of kvs ''roles'' = Some (JList rs) \<and> a < b \<and> b < length rs \<and>
          rs ! a = JDict ra \<and> rs ! b = JDict rb \<and>
          map_of ra ''name'' = Some (JStr n) \<and> map_of rb ''name'' = Some (JStr n) \<longrightarrow>
          (\<exists>errors. validate_rdmp_schema (JDict kvs) = Inr (False, errors) \<and>
                    [Lit ''Duplicate role name: '', Fmt (JStr n)] \<in> set errors)) \<and>
         (map_of kvs ''fields'' = Some (JList fs) \<and> j < length fs \<and> fs ! j = JDict f \<and>
          map_of f ''type'' = Some (JStr ''categorical'') \<and> map_of f ''allowed_values'' = None \<longrightarrow>
          (\<exists>errors. validate_rdmp_schema (JDict kvs) = Inr (False, errors) \<and>
                    [Lit (''Categorical field '' @ [sq]),
                     Fmt (case map_of f ''key'' of Some k \<Rightarrow> k | None \<Rightarrow> JInt (int j)),
                     Lit (sq # '' missing 'allowed_values'' @ [sq])] \<in> set errors))"
proof -
  obtain ok errs where res: "validate_rdmp_schema (JDict kvs) = Inr (ok, errs)"
    using assms validate_rdmp_schema_returns_iff [of "JDict kvs"] by auto
  then obtain e2 e3 where rs: "roles_section (JDict kvs) e2 = Inr e3"
    and fs: "fields_section (JDict kvs) e3 = Inr errs" and ok: "ok = (errs = [])"
    by (rule validate_rdmp_schema_sections)
  have dup: "[Lit ''Duplicate role name: '', Fmt (JStr n)] \<in> set errs"
    if "map_of kvs ''roles'' = Some (JList rs)" "a < b" "b < length rs"
      "rs ! a = JDict ra" "rs ! b = JDict rb"
      "map_of ra ''name'' = Some (JStr n)" "map_of rb ''name'' = Some (JStr n)"
  proof -
    have "rs \<noteq> []" using that(3) by auto
    then have "validate_roles rs 0 [] e2 = Inr e3"
      using rs that(1) by (simp add: roles_section_list)
    then have "[Lit ''Duplicate role name: '', Fmt (JStr n)] \<in> set e3"
      using validate_roles_duplicate that by blast
    then show ?thesis using fields_section_mono [OF fs] by blast
  qed
  have cat: "[Lit (''Categorical field '' @ [sq]),
              Fmt (case map_of f ''key'' of Some k \<Rightarrow> k | None \<Rightarrow> JInt (int j)),
              Lit (sq # '' missing 'allowed_values'' @ [sq])] \<in> set errs"
    if "map_of kvs ''fields'' = Some (JList fs)" "j < length fs" "fs ! j = JDict f"
      "map_of f ''type'' = Some (JStr ''categorical'')" "map_of f ''allowed_values'' = None"
  proof -
    have "fs \<noteq> []" using that(2) by auto
    then have "validate_fields fs 0 [] e3 = Inr errs"
      using fs that(1) by (simp add: fields_section_list)
    then show ?thesis
      using validate_fields_categorical [of fs 0 "[]" e3 errs j f] that
      by (cases "map_of f ''key''") auto
  qed
  show ?thesis
  proof (intro conjI impI)
    assume h: "map_of kvs ''roles'' = Some (JList rs) \<and> a < b \<and> b < length rs \<and>
          rs ! a = JDict ra \<and> rs ! b = JDict rb \<and>
          map_of ra ''name'' = Some (JStr n) \<and> map_of rb ''name'' = Some (JStr n)"
    then have "[Lit ''Duplicate role name: '', Fmt (JStr n)] \<in> set errs"
      using dup by blast
    moreover from this have "ok = False" using ok by auto
    ultimately show "\<exists>errors. validate_rdmp_schema (JDict kvs) = Inr (False, errors) \<and>
                    [Lit ''Duplicate role name: '', Fmt (JStr n)] \<in> set errors"
      using res by blast
  next
    assume h: "map_of kvs ''fields'' = Some (JList fs) \<and> j < length fs \<and> fs ! j = JDict f \<and>
          map_of f ''type'' = Some (JStr ''categorical'') \<and> map_of f ''allowed_values'' = None"
    then have "[Lit (''Categorical field '' @ [sq]),
              Fmt (case map_of f ''key'' of Some k \<Rightarrow> k | None \<Rightarrow> JInt (int j)),
              Lit (sq # '' missing 'allowed_values'' @ [sq])] \<in> set errs"
      using cat by blast
    moreover from this have "ok = False" using ok by auto
    ultimately show "\<exists>errors. validate_rdmp_schema (JDict kvs) = Inr (False, errors) \<and>
                    [Lit (''Categorical field '' @ [sq]),
                     Fmt (case map_of f ''key'' of Some k \<Rightarrow> k | None \<Rightarrow> JInt (int j)),
                     Lit (sq # '' missing 'allowed_values'' @ [sq])] \<in> set errors"
      using res by blast
  qed
qed

theorem validator_reports_duplicates_and_categorical_witness:
  "well_shaped two_leads_body \<and>
   (\<exists>errors. validate_rdmp_schema two_leads_body = Inr (False, errors) \<and>
      [Lit ''Duplicate role name: '', Fmt (JStr ''Lead'')] \<in> set errors) \<and>
   (\<exists>errors. validate_rdmp_schema two_leads_body = Inr (False, errors) \<and>
      [Lit (''Categorical field '' @ [sq]), Fmt (JStr ''grade''),
       Lit (sq # '' missing 'allowed_values'' @ [sq])] \<in> set errors) \<and>
   render [Lit ''Duplicate role name: '', Fmt (JStr ''Lead'')] = Some ''Duplicate role name: Lead''"
  using validator_reports_duplicates_and_categorical [of
      "[(''roles'', JList [JDict [(''name'', JStr ''Lead''), (''permissions'', all_permissions)],
                               JDict [(''name'', JStr ''Lead''), (''permissions'', all_permissions)]]),
            (''fields'', JList [JDict [(''key'', JStr ''grade''), (''type'', JStr ''categorical'')]])]"
      "[JDict [(''name'', JStr ''Lead''), (''permissions'', all_permissions)],
                               JDict [(''name'', JStr ''Lead''), (''permissions'', all_permissions)]]"
      0 1 "[(''name'', JStr ''Lead''), (''permissions'', all_permissions)]"
      "[(''name'', JStr ''Lead''), (''permissions'', all_permissions)]" "''Lead''"
      "[JDict [(''key'', JStr ''grade''), (''type'', JStr ''categorical'')]]" 0
      "[(''key'', JStr ''grade''), (''type'', JStr ''categorical'')]"]
  by (simp add: two_leads_body_def all_permissions_def required_perms_def)

section \<open>Dumped request bodies\<close>

lemma role_ok_dump: "role_ok (model_dump_RDMPRole r)"
  by (simp add: model_dump_RDMPRole_def)

lemma field_ok_dump: "field_ok (model_dump_RDMPField f)"
  by (simp add: model_dump_RDMPField_def)

lemma well_shaped_model_dump: "well_shaped (model_dump b)"
  by (simp add: model_dump_def list_all_iff role_ok_dump field_ok_dump)

lemma validate_model_dump:
  "\<exists>errors. validate_rdmp_schema (model_dump b) = Inr (errors = [], errors)"
proof -
  obtain ok errors where r: "validate_rdmp_schema (model_dump b) = Inr (ok, errors)"
    using validate_rdmp_schema_returns_iff [of "model_dump b"] well_shaped_model_dump by auto
  then have "ok = (errors = [])" by (rule validate_rdmp_schema_ok)
  then show ?thesis using r by blast
qed

lemma py_get_model_dump_fields:
  "py_get (model_dump b) ''fields'' d = Inr (JList (map model_dump_RDMPField (fields' b)))"
  by (simp add: model_dump_def)

lemma required_fields_of_dump:
  "required_fields_of (map model_dump_RDMPField fs) = Inr (map model_dump_RDMPField (filter required fs))"
  by (induction fs) (simp_all add: model_dump_RDMPField_def)

lemma py_set_contains_strs:
  "py_set_contains (map JStr existing) (JStr k) = Inr (k \<in> set existing)"
  by (auto simp: py_set_contains_def)

lemma missing_of_dump:
  "missing_of (map model_dump_RDMPField fs) existing =
   Inr (map (\<lambda>f. JStr (key f)) (filter (\<lambda>f. key f \<notin> set existing) fs))"
  by (induction fs) (simp_all add: model_dump_RDMPField_def py_set_contains_strs)

section \<open>The example documents\<close>

lemmas validator_defs =
  validate_rdmp_schema_def roles_section_def fields_section_def validate_role_def
  check_role_name_def check_role_permissions_def validate_field_def check_field_key_def
  check_field_label_def check_field_type_def check_field_visibility_def
  check_field_allowed_values_def required_perms_def field_types_def visibilities_def
  py_set_contains_def py_set_add_def
  model_dump_def model_dump_RDMPRole_def model_dump_RDMPField_def model_dump_RDMPIngestionRules_def

lemma example_rdmp_valid: "validate_rdmp_schema (model_dump example_rdmp) = Inr (True, [])"
  by (simp add: validator_defs example_rdmp_def lead_role_def)

lemma partial_rdmp_invalid: "validate_rdmp_schema (model_dump partial_rdmp) \<noteq> Inr (True, [])"
  by (simp add: validator_defs partial_rdmp_def example_rdmp_def)

lemma grade_rdmp_valid: "validate_rdmp_schema (model_dump grade_rdmp) = Inr (True, [])"
  by (simp add: validator_defs grade_rdmp_def grade_field_def example_rdmp_def lead_role_def)

section \<open>The field-value validator\<close>

text \<open>What the validator returns for the three types it checks.\<close>

lemma validate_field_value_number:
  assumes "map_of cfg ''type'' = Some (JStr ''number'')"
  shows "validate_field_value float_of_str (JDict cfg) v =
         (case py_float float_of_str v of
            Parsed \<Rightarrow> Inr (True, None)
          | ValueError_or_TypeError \<Rightarrow> Inr (False, Some ''Value must be a number'')
          | Overflow \<Rightarrow> Inl OverflowError)"
  using assms by (simp add: validate_field_value_def)

lemma join_strs_strings: "join_strs (map JStr vs) = Inr (comma_join vs)"
  by (induction vs rule: comma_join.induct) simp_all

lemma validate_field_value_categorical:
  assumes "map_of cfg ''type'' = Some (JStr ''categorical'')"
    and "map_of cfg ''allowed_values'' = Some (JList (map JStr vs))"
  shows "validate_field_value float_of_str (JDict cfg) v =
         (if v \<in> JStr ` set vs then Inr (True, None)
          else Inr (False, Some (''Value must be one of: '' @ comma_join vs)))"
  using assms by (auto simp: validate_field_value_def join_strs_strings)

lemma validate_field_value_date:
  assumes "map_of cfg ''type'' = Some (JStr ''date'')"
  shows "validate_field_value float_of_str (JDict cfg) v =
         (case v of JStr s \<Rightarrow> Inr (True, None) | _ \<Rightarrow> Inr (False, Some ''Date must be a string''))"
  using assms by (simp add: validate_field_value_def)

text \<open>
  C10. For every value, \<^verbatim>\<open>validate_field_value\<close> returns \<^verbatim>\<open>(True, None)\<close> when the field
  configuration has no \<^verbatim>\<open>type\<close> key or a type other than number, categorical and date
  (the declared type string among them): such a field accepts every value.
\<close>

theorem validate_field_value_unrecognised_type:
  assumes "map_of cfg ''type'' \<notin> {Some (JStr ''number''), Some (JStr ''categorical''), Some (JStr ''date'')}"
  shows "validate_field_value float_of_str (JDict cfg) v = Inr (True, None)"
  using assms by (auto simp: validate_field_value_def split: option.splits)

theorem validate_field_value_unrecognised_type_witness:
  "validate_field_value (\<lambda>s. False) (JDict [(''key'', JStr ''note''), (''type'', JStr ''string'')]) (JInt 5) = Inr (True, None)
   \<and> validate_field_value (\<lambda>s. False) (JDict [(''type'', JStr ''integer'')]) (JList []) = Inr (True, None)
   \<and> validate_field_value (\<lambda>s. False) (JDict []) JNull = Inr (True, None)"
  using validate_field_value_unrecognised_type [of "[(''key'', JStr ''note''), (''type'', JStr ''string'')]" "\<lambda>s. False" "JInt 5"]
    validate_field_value_unrecognised_type [of "[(''type'', JStr ''integer'')]" "\<lambda>s. False" "JList []"]
    validate_field_value_unrecognised_type [of "[]" "\<lambda>s. False" "JNull"]
  by simp

text \<open>
  C9. The field-value validator is to return an (ok, error) pair and never raise. A
  categorical field declared without allowed values passes the schema validator and is
  stored by \<^verbatim>\<open>model_dump\<close> with \<^verbatim>\<open>allowed_values\<close> \<^verbatim>\<open>None\<close>; on that field configuration the
  validator raises TypeError. On a number field it raises OverflowError for an integer
  beyond the float range.
\<close>

theorem validate_field_value_raises:
  "validate_rdmp_schema (model_dump grade_rdmp) = Inr (True, []) \<and>
   validate_field_value float_of_str (model_dump_RDMPField grade_field) (JStr ''A'') = Inl TypeError \<and>
   validate_field_value float_of_str (JDict [(''type'', JStr ''number'')]) (JInt (10 ^ 400)) = Inl OverflowError"
  by (simp add: grade_rdmp_valid validate_field_value_def model_dump_RDMPField_def grade_field_def
      float_max_int_def)

section \<open>Completeness of a sample\<close>

text \<open>
  C8. For every sample and every RDMP version whose body is an RDMPJSON document,
  \<^verbatim>\<open>check_sample_completeness\<close> returns: \<^verbatim>\<open>total_required\<close>, the number of fields with
  \<^verbatim>\<open>required\<close> true; \<^verbatim>\<open>missing_fields\<close>, the keys of the required fields with no field
  value on the sample, in the order of declaration; \<^verbatim>\<open>total_filled\<close>, the number of
  distinct field keys among the sample's field values, required or not; and
  \<^verbatim>\<open>is_complete\<close>, true exactly when \<^verbatim>\<open>missing_fields\<close> is empty.
\<close>

theorem completeness_of_sample:
  "check_sample_completeness sample (rdmp\<lparr>RDMPVersion.rdmp_json := model_dump b\<rparr>) =
   Inr \<lparr>is_complete =
          (filter (\<lambda>f. required f \<and> key f \<notin> field_key ` set (field_values sample)) (fields' b) = []),
        missing_fields =
          map (\<lambda>f. JStr (key f))
            (filter (\<lambda>f. required f \<and> key f \<notin> field_key ` set (field_values sample)) (fields' b)),
        total_required = length (filter required (fields' b)),
        total_filled = card (field_key ` set (field_values sample))\<rparr>"
  by (simp add: check_sample_completeness_def py_get_model_dump_fields required_fields_of_dump
      missing_of_dump length_remdups_card_conv conj_commute)

theorem completeness_of_sample_witness:
  "check_sample_completeness
     \<lparr>field_values = [\<lparr>field_key = ''age'', value_json = JInt 41\<rparr>,
                      \<lparr>field_key = ''age'', value_json = JInt 42\<rparr>,
                      \<lparr>field_key = ''batch'', value_json = JStr ''b7''\<rparr>]\<rparr>
     \<lparr>RDMPVersion.id' = 1, project_id = 1, version_int = 1, created_by = 1,
      rdmp_json = model_dump example_rdmp, provenance_json = None\<rparr> =
   Inr \<lparr>is_complete = False, missing_fields = [JStr ''sex''], total_required = 2, total_filled = 2\<rparr>"
  using completeness_of_sample [where sample =
     "\<lparr>field_values = [\<lparr>field_key = ''age'', value_json = JInt 41\<rparr>,
                      \<lparr>field_key = ''age'', value_json = JInt 42\<rparr>,
                      \<lparr>field_key = ''batch'', value_json = JStr ''b7''\<rparr>]\<rparr>"
     and rdmp = "\<lparr>RDMPVersion.id' = 1, project_id = 1, version_int = 1, created_by = 1,
      rdmp_json = JNull, provenance_json = None\<rparr>" and b = example_rdmp]
  by (simp add: example_rdmp_def lead_role_def)

section \<open>The store and its handlers\<close>

text \<open>What a successful INSERT leaves.\<close>

lemma insert_rdmp_version_Inr:
  assumes "insert_rdmp_version db pid v author body prov = Inr (db', row)"
  shows "rdmp_versions db' = rdmp_versions db @ [row]"
    and "rdmp_template_versions db' = rdmp_template_versions db"
    and "rdmp_templates db' = rdmp_templates db"
    and "memberships db' = memberships db"
    and "RDMPVersion.project_id row = pid" and "RDMPVersion.version_int row = v"
    and "RDMPVersion.rdmp_json row = body"
    and "\<forall>r \<in> set (rdmp_versions db). \<not> (RDMPVersion.project_id r = pid \<and> RDMPVersion.version_int r = v)"
  using assms by (auto simp: insert_rdmp_version_def Let_def split: if_splits)

lemma insert_template_version_Inr:
  assumes "insert_template_version db tid v author body = Inr (db', row)"
  shows "rdmp_template_versions db' = rdmp_template_versions db @ [row]"
    and "rdmp_versions db' = rdmp_versions db"
    and "rdmp_templates db' = rdmp_templates db"
    and "memberships db' = memberships db"
    and "RDMPTemplateVersion.template_id row = tid" and "RDMPTemplateVersion.version_int row = v"
    and "RDMPTemplateVersion.template_json row = body"
    and "\<forall>r \<in> set (rdmp_template_versions db).
           \<not> (RDMPTemplateVersion.template_id r = tid \<and> RDMPTemplateVersion.version_int r = v)"
  using assms by (auto simp: insert_template_version_def Let_def split: if_splits)

lemma insert_template_Inr:
  assumes "insert_template db n d = Inr (db', row)"
  shows "rdmp_templates db' = rdmp_templates db @ [row]"
    and "rdmp_versions db' = rdmp_versions db"
    and "rdmp_template_versions db' = rdmp_template_versions db"
    and "memberships db' = memberships db"
    and "RDMPTemplate.id' row = next_id (map RDMPTemplate.id' (rdmp_templates db))"
  using assms by (auto simp: insert_template_def Let_def split: if_splits)

text \<open>What a successful handler has done.\<close>

lemma create_project_rdmp_version_at_Inr:
  assumes "create_project_rdmp_version_at snap db pid rdmp_data u = Inr (db', row)"
  shows "validate_rdmp_schema (model_dump (RDMPVersionCreate.rdmp_json rdmp_data)) = Inr (True, [])"
    and "insert_rdmp_version db pid
           (case get_current_rdmp snap pid of Some l \<Rightarrow> RDMPVersion.version_int l + 1 | None \<Rightarrow> 1) u
           (model_dump (RDMPVersionCreate.rdmp_json rdmp_data))
           (RDMPVersionCreate.provenance_json rdmp_data) = Inr (db', row)"
proof -
  obtain ok errors where v: "validate_rdmp_schema (model_dump (RDMPVersionCreate.rdmp_json rdmp_data)) = Inr (ok, errors)"
    using validate_model_dump by blast
  then have ok: "ok" using assms by (auto simp: create_project_rdmp_version_at_def split: if_splits)
  moreover have "ok = (errors = [])" using v by (rule validate_rdmp_schema_ok)
  ultimately show "validate_rdmp_schema (model_dump (RDMPVersionCreate.rdmp_json rdmp_data)) = Inr (True, [])"
    using v by simp
  show "insert_rdmp_version db pid
           (case get_current_rdmp snap pid of Some l \<Rightarrow> RDMPVersion.version_int l + 1 | None \<Rightarrow> 1) u
           (model_dump (RDMPVersionCreate.rdmp_json rdmp_data))
           (RDMPVersionCreate.provenance_json rdmp_data) = Inr (db', row)"
    using assms v ok by (simp add: create_project_rdmp_version_at_def get_current_rdmp_def Let_def)
qed

lemma create_template_version_at_Inr:
  assumes "create_template_version_at snap db tid version_data u = Inr (db', row)"
  shows "validate_rdmp_schema (model_dump (RDMPTemplateVersionCreate.template_json version_data)) = Inr (True, [])"
    and "insert_template_version db tid
           (case get_current_template_version snap tid of
              Some l \<Rightarrow> RDMPTemplateVersion.version_int l + 1 | None \<Rightarrow> 1) u
           (model_dump (RDMPTemplateVersionCreate.template_json version_data)) = Inr (db', row)"
proof -
  obtain ok errors where v: "validate_rdmp_schema (model_dump (RDMPTemplateVersionCreate.template_json version_data)) = Inr (ok, errors)"
    using validate_model_dump by blast
  then have ok: "ok" using assms
    by (auto simp: create_template_version_at_def split: option.splits if_splits)
  moreover have "ok = (errors = [])" using v by (rule validate_rdmp_schema_ok)
  ultimately show "validate_rdmp_schema (model_dump (RDMPTemplateVersionCreate.template_json version_data)) = Inr (True, [])"
    using v by simp
  show "insert_template_version db tid
           (case get_current_template_version snap tid of
              Some l \<Rightarrow> RDMPTemplateVersion.version_int l + 1 | None \<Rightarrow> 1) u
           (model_dump (RDMPTemplateVersionCreate.template_json version_data)) = Inr (db', row)"
    using assms v ok
    by (simp add: create_template_version_at_def get_current_template_version_def Let_def split: option.splits)
qed

lemma create_template_Inr:
  assumes "create_template db template_data u = Inr (db', t)"
  obtains db1 vrow where
    "validate_rdmp_schema (model_dump (RDMPTemplateCreate.template_json template_data)) = Inr (True, [])"
    "insert_template db (RDMPTemplateCreate.name template_data) (RDMPTemplateCreate.description template_data) = Inr (db1, t)"
    "insert_template_version db1 (RDMPTemplate.id' t) 1 u
       (model_dump (RDMPTemplateCreate.template_json template_data)) = Inr (db', vrow)"
proof -
  obtain ok errors where v: "validate_rdmp_schema (model_dump (RDMPTemplateCreate.template_json template_data)) = Inr (ok, errors)"
    using validate_model_dump by blast
  then have ok: "ok" using assms by (auto simp: create_template_def split: if_splits)
  moreover have "ok = (errors = [])" using v by (rule validate_rdmp_schema_ok)
  ultimately have 1: "validate_rdmp_schema (model_dump (RDMPTemplateCreate.template_json template_data)) = Inr (True, [])"
    using v by simp
  then show ?thesis using assms that
    by (auto simp: create_template_def split: sum.splits)
qed

lemma first_eq_None [simp]: "first xs = None \<longleftrightarrow> xs = []"
  by (cases xs) auto

lemma sort_key_eq_Nil [simp]: "sort_key f xs = [] \<longleftrightarrow> xs = []"
proof -
  have "length (sort_key f xs) = length xs" by (rule length_sort)
  then show ?thesis by (cases xs) auto
qed

lemma first_sort_key_Some:
  fixes f :: "'a \<Rightarrow> int"
  assumes "first (sort_key f xs) = Some x"
  shows "x \<in> set xs" and "\<forall>y \<in> set xs. f x \<le> f y"
proof -
  obtain rest where s: "sort_key f xs = x # rest"
    using assms by (cases "sort_key f xs") auto
  have "set (sort_key f xs) = set xs" by simp
  then show "x \<in> set xs" using s by auto
  have "sorted (map f (sort_key f xs))" by (rule sorted_sort_key)
  then have "\<forall>y \<in> set (x # rest). f x \<le> f y" using s by auto
  then show "\<forall>y \<in> set xs. f x \<le> f y"
    using s \<open>set (sort_key f xs) = set xs\<close> by metis
qed

lemma first_sort_key_last:
  fixes f :: "'a \<Rightarrow> int"
  assumes "\<forall>y \<in> set xs. f x < f y"
  shows "first (sort_key f (xs @ [x])) = Some x"
proof -
  obtain h where h: "first (sort_key f (xs @ [x])) = Some h"
    by (cases "first (sort_key f (xs @ [x]))") auto
  then have "h \<in> set (xs @ [x])" and "\<forall>y \<in> set (xs @ [x]). f h \<le> f y"
    using first_sort_key_Some [OF h] by blast+
  then have "h = x" using assms by force
  then show ?thesis using h by simp
qed

text \<open>The latest version is a stored row of the project with the greatest number.\<close>

lemma get_current_rdmp_None [simp]:
  "get_current_rdmp db pid = None \<longleftrightarrow> filter (\<lambda>r. RDMPVersion.project_id r = pid) (rdmp_versions db) = []"
  by (simp add: get_current_rdmp_def)

lemma get_current_rdmp_Some:
  assumes "get_current_rdmp db pid = Some l"
  shows "l \<in> set (rdmp_versions db)" and "RDMPVersion.project_id l = pid"
    and "\<forall>r \<in> set (rdmp_versions db). RDMPVersion.project_id r = pid \<longrightarrow>
           RDMPVersion.version_int r \<le> RDMPVersion.version_int l"
  using first_sort_key_Some [OF assms [unfolded get_current_rdmp_def]] by auto

lemma next_version_is_free:
  assumes "v = (case get_current_rdmp db pid of Some l \<Rightarrow> RDMPVersion.version_int l + 1 | None \<Rightarrow> 1)"
    and "r \<in> set (rdmp_versions db)" and "RDMPVersion.project_id r = pid"
  shows "RDMPVersion.version_int r < v"
proof (cases "get_current_rdmp db pid")
  case None
  then show ?thesis using assms(2,3) by (auto simp: filter_empty_conv)
next
  case (Some l)
  then show ?thesis using get_current_rdmp_Some(3) [OF Some] assms by force
qed

lemma contiguous_Nil [simp]: "contiguous []"
  by (simp add: contiguous_def)

lemma contiguous_set: "contiguous vs \<Longrightarrow> set vs = {1..int (length vs)}"
proof -
  assume "contiguous vs"
  then have "set vs = int ` {1..<Suc (length vs)}"
    unfolding contiguous_def by (metis set_map set_upt)
  also have "\<dots> = {1..int (length vs)}"
  proof (intro set_eqI iffI)
    fix x assume "x \<in> int ` {1..<Suc (length vs)}"
    then show "x \<in> {1..int (length vs)}" by auto
  next
    fix x assume "x \<in> {1..int (length vs)}"
    then have "nat x \<in> {1..<Suc (length vs)}" and "x = int (nat x)" by auto
    then show "x \<in> int ` {1..<Suc (length vs)}" by blast
  qed
  finally show ?thesis .
qed

lemma contiguous_prefix:
  assumes "contiguous vs" and "prefix ws vs"
  shows "contiguous ws"
proof -
  have ws: "ws = take (length ws) vs"
    using assms(2) by (metis append_eq_conv_conj prefix_def)
  have len: "length ws \<le> length vs"
    using assms(2) by (rule prefix_length_le)
  have "take (length ws) vs = take (length ws) (map int [1..<Suc (length vs)])"
    using assms(1) unfolding contiguous_def by simp
  also have "\<dots> = map int (take (length ws) [1..<Suc (length vs)])"
    by (simp add: take_map)
  also have "take (length ws) [1..<Suc (length vs)] = [1..<Suc (length ws)]"
    using len by (simp add: take_upt del: upt_Suc)
  finally show ?thesis using ws unfolding contiguous_def by simp
qed

lemma contiguous_snoc:
  assumes "contiguous vs"
  shows "contiguous (vs @ [int (length vs) + 1])"
  using assms unfolding contiguous_def by simp

lemma contiguous_upto: "contiguous vs \<Longrightarrow> vs = [1..int (length vs)]"
proof (induction vs rule: rev_induct)
  case Nil
  then show ?case by simp
next
  case (snoc v vs)
  have "prefix vs (vs @ [v])" by simp
  then have c: "contiguous vs" using snoc.prems contiguous_prefix by blast
  then have vs: "vs = [1..int (length vs)]" by (rule snoc.IH)
  have "v = int (length vs) + 1"
    using snoc.prems unfolding contiguous_def by simp
  then have "vs @ [v] = [1..int (length vs)] @ [int (length vs) + 1]"
    using vs by simp
  also have "\<dots> = [1..int (length vs) + 1]"
    by (simp add: upto_rec2)
  finally show ?case by (simp add: add.commute)
qed

lemma contiguous_Max:
  assumes "contiguous vs" and "vs \<noteq> []"
  shows "Max (set vs) = int (length vs)"
proof -
  have "set vs = {1..int (length vs)}" using assms(1) by (rule contiguous_set)
  moreover have "1 \<le> int (length vs)" using assms(2) by (cases vs) auto
  ultimately show ?thesis by (intro Max_eqI) auto
qed

lemma get_current_template_version_None [simp]:
  "get_current_template_version db tid = None \<longleftrightarrow>
   filter (\<lambda>r. RDMPTemplateVersion.template_id r = tid) (rdmp_template_versions db) = []"
  by (simp add: get_current_template_version_def)

lemma get_current_template_version_Some:
  assumes "get_current_template_version db tid = Some l"
  shows "l \<in> set (rdmp_template_versions db)" and "RDMPTemplateVersion.template_id l = tid"
    and "\<forall>r \<in> set (rdmp_template_versions db). RDMPTemplateVersion.template_id r = tid \<longrightarrow>
           RDMPTemplateVersion.version_int r \<le> RDMPTemplateVersion.version_int l"
  using first_sort_key_Some [OF assms [unfolded get_current_template_version_def]] by auto

lemma earlier_project_versions:
  "earlier snap db \<Longrightarrow> prefix (project_versions snap pid) (project_versions db pid)"
  by (simp add: earlier_def project_versions_def map_mono_prefix filter_mono_prefix)

lemma earlier_template_versions:
  "earlier snap db \<Longrightarrow> prefix (template_versions snap tid) (template_versions db tid)"
  by (simp add: earlier_def template_versions_def map_mono_prefix filter_mono_prefix)

lemma earlier_refl [simp]: "earlier db db"
  by (simp add: earlier_def)

text \<open>With contiguous numbers the next number is the count plus one.\<close>

lemma next_project_version:
  assumes "contiguous (project_versions db pid)"
  shows "(case get_current_rdmp db pid of Some l \<Rightarrow> RDMPVersion.version_int l + 1 | None \<Rightarrow> 1) =
         int (length (project_versions db pid)) + 1"
proof (cases "get_current_rdmp db pid")
  case None
  then have "project_versions db pid = []" by (simp add: project_versions_def)
  then show ?thesis unfolding None by simp
next
  case (Some l)
  have in_vs: "RDMPVersion.version_int l \<in> set (project_versions db pid)"
    using get_current_rdmp_Some(1,2) [OF Some] by (auto simp: project_versions_def)
  then have ne: "project_versions db pid \<noteq> []" by auto
  have "\<forall>v \<in> set (project_versions db pid). v \<le> RDMPVersion.version_int l"
    using get_current_rdmp_Some(3) [OF Some] by (auto simp: project_versions_def)
  then have "Max (set (project_versions db pid)) = RDMPVersion.version_int l"
    using in_vs by (intro Max_eqI) auto
  then show ?thesis using contiguous_Max [OF assms ne] Some by simp
qed

lemma next_template_version:
  assumes "contiguous (template_versions db tid)"
  shows "(case get_current_template_version db tid of
            Some l \<Rightarrow> RDMPTemplateVersion.version_int l + 1 | None \<Rightarrow> 1) =
         int (length (template_versions db tid)) + 1"
proof (cases "get_current_template_version db tid")
  case None
  then have "template_versions db tid = []" by (simp add: template_versions_def)
  then show ?thesis unfolding None by simp
next
  case (Some l)
  have in_vs: "RDMPTemplateVersion.version_int l \<in> set (template_versions db tid)"
    using get_current_template_version_Some(1,2) [OF Some] by (auto simp: template_versions_def)
  then have ne: "template_versions db tid \<noteq> []" by auto
  have "\<forall>v \<in> set (template_versions db tid). v \<le> RDMPTemplateVersion.version_int l"
    using get_current_template_version_Some(3) [OF Some] by (auto simp: template_versions_def)
  then have "Max (set (template_versions db tid)) = RDMPTemplateVersion.version_int l"
    using in_vs by (intro Max_eqI) auto
  then show ?thesis using contiguous_Max [OF assms ne] Some by simp
qed

text \<open>
  A number read from an earlier store is accepted by the uniqueness constraint only if
  nothing was appended to the scope since.
\<close>

lemma free_number_is_next:
  assumes "contiguous vs" and "k \<le> length vs" and "int k + 1 \<notin> set vs"
  shows "k = length vs"
proof -
  have "int k + 1 \<notin> {1..int (length vs)}"
    using assms(1,3) contiguous_set by blast
  then show ?thesis using assms(2) by auto
qed

lemma insert_rdmp_version_versions:
  assumes "insert_rdmp_version db pid v author body prov = Inr (db', row)"
  shows "project_versions db' pid = project_versions db pid @ [v]"
    and "q \<noteq> pid \<Longrightarrow> project_versions db' q = project_versions db q"
    and "template_versions db' tid = template_versions db tid"
    and "v \<notin> set (project_versions db pid)"
  using insert_rdmp_version_Inr [OF assms]
  by (auto simp: project_versions_def template_versions_def)

lemma insert_template_version_versions:
  assumes "insert_template_version db tid v author body = Inr (db', row)"
  shows "template_versions db' tid = template_versions db tid @ [v]"
    and "q \<noteq> tid \<Longrightarrow> template_versions db' q = template_versions db q"
    and "project_versions db' pid = project_versions db pid"
    and "v \<notin> set (template_versions db tid)"
  using insert_template_version_Inr [OF assms]
  by (auto simp: project_versions_def template_versions_def)

lemma insert_template_versions:
  assumes "insert_template db n d = Inr (db', row)"
  shows "template_versions db' tid = template_versions db tid"
    and "project_versions db' pid = project_versions db pid"
  using insert_template_Inr [OF assms]
  by (auto simp: project_versions_def template_versions_def)

lemma project_append_number:
  assumes "numbered db" and "earlier snap db"
    and "create_project_rdmp_version_at snap db pid rdmp_data u = Inr (db', row)"
  shows "project_versions db' pid = project_versions db pid @ [int (length (project_versions db pid)) + 1]"
    and "RDMPVersion.version_int row = int (length (project_versions db pid)) + 1"
    and "q \<noteq> pid \<Longrightarrow> project_versions db' q = project_versions db q"
    and "template_versions db' tid = template_versions db tid"
proof -
  have c: "contiguous (project_versions db pid)" using assms(1) by (simp add: numbered_def)
  have p: "prefix (project_versions snap pid) (project_versions db pid)"
    using assms(2) by (rule earlier_project_versions)
  then have cs: "contiguous (project_versions snap pid)" using c contiguous_prefix by blast
  define k where "k = length (project_versions snap pid)"
  have ins: "insert_rdmp_version db pid (int k + 1) u
           (model_dump (RDMPVersionCreate.rdmp_json rdmp_data))
           (RDMPVersionCreate.provenance_json rdmp_data) = Inr (db', row)"
    using create_project_rdmp_version_at_Inr(2) [OF assms(3)] next_project_version [OF cs]
    by (simp add: k_def)
  have "k \<le> length (project_versions db pid)"
    unfolding k_def using p by (rule prefix_length_le)
  then have k: "k = length (project_versions db pid)"
    using free_number_is_next [OF c] insert_rdmp_version_versions(4) [OF ins] by blast
  show "project_versions db' pid = project_versions db pid @ [int (length (project_versions db pid)) + 1]"
    using insert_rdmp_version_versions(1) [OF ins] k by simp
  show "RDMPVersion.version_int row = int (length (project_versions db pid)) + 1"
    using insert_rdmp_version_Inr(6) [OF ins] k by simp
  show "q \<noteq> pid \<Longrightarrow> project_versions db' q = project_versions db q"
    using insert_rdmp_version_versions(2) [OF ins] by simp
  show "template_versions db' tid = template_versions db tid"
    using insert_rdmp_version_versions(3) [OF ins] by simp
qed

lemma template_append_number:
  assumes "numbered db" and "earlier snap db"
    and "create_template_version_at snap db tid version_data u = Inr (db', row)"
  shows "template_versions db' tid = template_versions db tid @ [int (length (template_versions db tid)) + 1]"
    and "RDMPTemplateVersion.version_int row = int (length (template_versions db tid)) + 1"
    and "q \<noteq> tid \<Longrightarrow> template_versions db' q = template_versions db q"
    and "project_versions db' pid = project_versions db pid"
proof -
  have c: "contiguous (template_versions db tid)" using assms(1) by (simp add: numbered_def)
  have p: "prefix (template_versions snap tid) (template_versions db tid)"
    using assms(2) by (rule earlier_template_versions)
  then have cs: "contiguous (template_versions snap tid)" using c contiguous_prefix by blast
  define k where "k = length (template_versions snap tid)"
  have ins: "insert_template_version db tid (int k + 1) u
           (model_dump (RDMPTemplateVersionCreate.template_json version_data)) = Inr (db', row)"
    using create_template_version_at_Inr(2) [OF assms(3)] next_template_version [OF cs]
    by (simp add: k_def)
  have "k \<le> length (template_versions db tid)"
    unfolding k_def using p by (rule prefix_length_le)
  then have k: "k = length (template_versions db tid)"
    using free_number_is_next [OF c] insert_template_version_versions(4) [OF ins] by blast
  show "template_versions db' tid = template_versions db tid @ [int (length (template_versions db tid)) + 1]"
    using insert_template_version_versions(1) [OF ins] k by simp
  show "RDMPTemplateVersion.version_int row = int (length (template_versions db tid)) + 1"
    using insert_template_version_Inr(6) [OF ins] k by simp
  show "q \<noteq> tid \<Longrightarrow> template_versions db' q = template_versions db q"
    using insert_template_version_versions(2) [OF ins] by simp
  show "project_versions db' pid = project_versions db pid"
    using insert_template_version_versions(3) [OF ins] by simp
qed

lemma template_create_number:
  assumes "numbered db" and "create_template db template_data u = Inr (db', t)"
  shows "template_versions db' (RDMPTemplate.id' t) = [1]"
    and "q \<noteq> RDMPTemplate.id' t \<Longrightarrow> template_versions db' q = template_versions db q"
    and "project_versions db' pid = project_versions db pid"
proof -
  from assms(2) obtain db1 vrow where
    it: "insert_template db (RDMPTemplateCreate.name template_data) (RDMPTemplateCreate.description template_data) = Inr (db1, t)"
    and iv: "insert_template_version db1 (RDMPTemplate.id' t) 1 u
       (model_dump (RDMPTemplateCreate.template_json template_data)) = Inr (db', vrow)"
    by (rule create_template_Inr)
  have same: "template_versions db1 x = template_versions db x" for x
    using insert_template_versions(1) [OF it] .
  have c: "contiguous (template_versions db1 (RDMPTemplate.id' t))"
    using assms(1) same by (simp add: numbered_def)
  have "int 0 + 1 \<notin> set (template_versions db1 (RDMPTemplate.id' t))"
    using insert_template_version_versions(4) [OF iv] by simp
  then have "0 = length (template_versions db1 (RDMPTemplate.id' t))"
    using free_number_is_next [OF c, of 0] by blast
  then show "template_versions db' (RDMPTemplate.id' t) = [1]"
    using insert_template_version_versions(1) [OF iv] by simp
  show "q \<noteq> RDMPTemplate.id' t \<Longrightarrow> template_versions db' q = template_versions db q"
    using insert_template_version_versions(2) [OF iv] same by simp
  show "project_versions db' pid = project_versions db pid"
    using insert_template_version_versions(3) [OF iv] insert_template_versions(2) [OF it] by simp
qed

lemma reachable_numbered: "reachable db \<Longrightarrow> numbered db"
proof (induction rule: reachable.induct)
  case start
  show ?case by (simp add: numbered_def empty_db_def project_versions_def template_versions_def)
next
  case (members db ms)
  then show ?case by (simp add: numbered_def project_versions_def template_versions_def)
next
  case (project_version db snap pid rdmp_data u db' row)
  note n = project_append_number [OF project_version.IH project_version.hyps(2,3)]
  have "contiguous (project_versions db' q)" for q
  proof (cases "q = pid")
    case True
    then show ?thesis
      using n(1) contiguous_snoc [of "project_versions db pid"] project_version.IH
      by (simp add: numbered_def)
  next
    case False
    then show ?thesis using n(3) project_version.IH by (simp add: numbered_def)
  qed
  moreover have "contiguous (template_versions db' tid)" for tid
    using n(4) project_version.IH by (simp add: numbered_def)
  ultimately show ?case by (simp add: numbered_def)
next
  case (template_version db snap tid version_data u db' trow)
  note n = template_append_number [OF template_version.IH template_version.hyps(2,3)]
  have "contiguous (template_versions db' q)" for q
  proof (cases "q = tid")
    case True
    then show ?thesis
      using n(1) contiguous_snoc [of "template_versions db tid"] template_version.IH
      by (simp add: numbered_def)
  next
    case False
    then show ?thesis using n(3) template_version.IH by (simp add: numbered_def)
  qed
  moreover have "contiguous (project_versions db' pid)" for pid
    using n(4) template_version.IH by (simp add: numbered_def)
  ultimately show ?case by (simp add: numbered_def)
next
  case (template db template_data u db' t)
  note n = template_create_number [OF template.IH template.hyps(2)]
  have "contiguous (template_versions db' q)" for q
  proof (cases "q = RDMPTemplate.id' t")
    case True
    then show ?thesis using n(1) by (simp add: contiguous_def)
  next
    case False
    then show ?thesis using n(2) template.IH by (simp add: numbered_def)
  qed
  moreover have "contiguous (project_versions db' pid)" for pid
    using n(3) template.IH by (simp add: numbered_def)
  ultimately show ?case by (simp add: numbered_def)
qed

lemma reachable_stored_valid: "reachable db \<Longrightarrow> stored_valid db"
proof (induction rule: reachable.induct)
  case start
  show ?case by (simp add: stored_valid_def empty_db_def)
next
  case (members db ms)
  then show ?case by (simp add: stored_valid_def)
next
  case (project_version db snap pid rdmp_data u db' row)
  note c = create_project_rdmp_version_at_Inr [OF project_version.hyps(3)]
  note i = insert_rdmp_version_Inr [OF c(2)]
  show ?case
    using project_version.IH c(1) i(1,2,7) unfolding stored_valid_def by auto
next
  case (template_version db snap tid version_data u db' trow)
  note c = create_template_version_at_Inr [OF template_version.hyps(3)]
  note i = insert_template_version_Inr [OF c(2)]
  show ?case
    using template_version.IH c(1) i(1,2,7) unfolding stored_valid_def by auto
next
  case (template db template_data u db' t)
  from template.hyps(2) obtain db1 vrow where
    v: "validate_rdmp_schema (model_dump (RDMPTemplateCreate.template_json template_data)) = Inr (True, [])"
    and it: "insert_template db (RDMPTemplateCreate.name template_data) (RDMPTemplateCreate.description template_data) = Inr (db1, t)"
    and iv: "insert_template_version db1 (RDMPTemplate.id' t) 1 u
       (model_dump (RDMPTemplateCreate.template_json template_data)) = Inr (db', vrow)"
    by (rule create_template_Inr)
  note a = insert_template_Inr [OF it]
  note b = insert_template_version_Inr [OF iv]
  show ?case
    using template.IH v a(2,3) b(1,2,7) unfolding stored_valid_def by auto
qed

lemma invalid_dump:
  assumes "validate_rdmp_schema (model_dump b) \<noteq> Inr (True, [])"
  obtains errors where "errors \<noteq> []" "validate_rdmp_schema (model_dump b) = Inr (False, errors)"
proof -
  obtain errors where "validate_rdmp_schema (model_dump b) = Inr (errors = [], errors)"
    using validate_model_dump by blast
  then show ?thesis using assms that by (cases "errors = []") auto
qed

lemmas store_defs =
  create_project_rdmp_version_def create_project_rdmp_version_at_def insert_rdmp_version_def
  get_current_rdmp_def empty_db_def next_id_def version_row_def

lemma first_append: "create_project_rdmp_version_at empty_db empty_db 1 example_request 7 = Inr (db_one, version_row 1 1 example_rdmp)"
  by (simp add: store_defs example_rdmp_valid example_request_def db_one_def Let_def)

lemma second_append: "create_project_rdmp_version_at db_one db_one 1 example_request 7 = Inr (db_two, version_row 2 2 example_rdmp)"
  by (simp add: store_defs example_rdmp_valid example_request_def db_one_def db_two_def Let_def)

lemma reachable_db_one: "reachable db_one"
  using reachable.project_version [OF reachable.start _ first_append] by simp

lemma reachable_db_two: "reachable db_two"
  using reachable.project_version [OF reachable_db_one _ second_append] by simp

lemmas template_store_defs =
  create_template_def create_template_version_at_def insert_template_def insert_template_version_def
  empty_db_def next_id_def template_row_def basic_template_def

lemma template_created:
  "create_template empty_db
     \<lparr>RDMPTemplateCreate.name = ''basic'', description = None, template_json = example_rdmp\<rparr> 7 =
   Inr (db_template, basic_template)"
  by (simp add: template_store_defs example_rdmp_valid db_template_def Let_def)

lemma template_appended:
  "create_template_version_at db_template db_template 1
     \<lparr>RDMPTemplateVersionCreate.template_json = example_rdmp\<rparr> 7 =
   Inr (db_template_two, template_row 2 2 example_rdmp)"
  by (simp add: template_store_defs example_rdmp_valid db_template_def db_template_two_def Let_def)

lemma third_append:
  "create_project_rdmp_version_at db_two db_two 1 example_request 7 = Inr (db_three, version_row 3 3 example_rdmp)"
  by (simp add: store_defs example_rdmp_valid example_request_def db_two_def db_three_def Let_def)

lemma reachable_db_template: "reachable db_template"
  using reachable.template [OF reachable.start template_created] .

lemma reachable_db_member: "reachable db_member"
  using reachable.members [OF reachable_db_one] by (simp add: db_member_def)

section \<open>Appending and reading back\<close>



text \<open>
  C2. The claim is that an insert that hits the uniqueness conflict is retried with the
  re-read maximum, and fails with VersionConflict after a bounded number of retries. A
  request that read the empty store while another committed version 1 fails with
  IntegrityError, although re-reading would have given it version 2.
\<close>

theorem append_conflict_not_retried:
  "create_project_rdmp_version_at empty_db db_one 1 example_request 8 = Inl IntegrityError \<and>
   map_sum id (RDMPVersion.version_int \<circ> snd) (create_project_rdmp_version db_one 1 example_request 8) = Inr 2"
  by (simp add: store_defs example_rdmp_valid example_request_def db_one_def Let_def)

text \<open>
  C2, as the code has it. When the insert of a valid body hits the uniqueness conflict
  on (project_id, version_int), the handler fails at once with the store's
  IntegrityError: the number read before is not read again, the insert is not retried,
  and there is no VersionConflict error.
\<close>

theorem append_conflict_raises_integrity_error:
  assumes "validate_rdmp_schema (model_dump (RDMPVersionCreate.rdmp_json rdmp_data)) = Inr (True, errors)"
    and "\<exists>r \<in> set (rdmp_versions db). RDMPVersion.project_id r = pid \<and>
           RDMPVersion.version_int r =
             (case get_current_rdmp snap pid of Some l \<Rightarrow> RDMPVersion.version_int l + 1 | None \<Rightarrow> 1)"
  shows "create_project_rdmp_version_at snap db pid rdmp_data u = Inl IntegrityError"
  using assms
  by (auto simp: create_project_rdmp_version_at_def insert_rdmp_version_def get_current_rdmp_def Let_def)

theorem append_conflict_raises_integrity_error_witness:
  "validate_rdmp_schema (model_dump (RDMPVersionCreate.rdmp_json example_request)) = Inr (True, []) \<and>
   get_current_rdmp db_one 1 = Some (version_row 1 1 example_rdmp) \<and>
   version_row 2 2 example_rdmp \<in> set (rdmp_versions db_two) \<and>
   create_project_rdmp_version_at db_one db_two 1 example_request 9 = Inl IntegrityError"
proof -
  have v: "validate_rdmp_schema (model_dump (RDMPVersionCreate.rdmp_json example_request)) = Inr (True, [])"
    by (simp add: example_request_def example_rdmp_valid)
  have g: "get_current_rdmp db_one 1 = Some (version_row 1 1 example_rdmp)"
    by (simp add: get_current_rdmp_def db_one_def version_row_def)
  have m: "version_row 2 2 example_rdmp \<in> set (rdmp_versions db_two)"
    by (simp add: db_two_def)
  have "\<exists>r \<in> set (rdmp_versions db_two). RDMPVersion.project_id r = 1 \<and>
           RDMPVersion.version_int r =
             (case get_current_rdmp db_one 1 of Some l \<Rightarrow> RDMPVersion.version_int l + 1 | None \<Rightarrow> 1)"
    using m unfolding g by (intro bexI [of _ "version_row 2 2 example_rdmp"]) (simp_all add: version_row_def)
  then have "create_project_rdmp_version_at db_one db_two 1 example_request 9 = Inl IntegrityError"
    using append_conflict_raises_integrity_error [OF v] by blast
  then show ?thesis using v g m by simp
qed

text \<open>
  C4. In every store the handlers can produce, also with requests that read an earlier
  store than the one they commit to, the version numbers of each project and of each
  template are 1, 2, ..., N in insertion order, without gap or duplicate; and a
  successful append adds one row whose \<^verbatim>\<open>version_int\<close> is one plus the greatest number of
  the scope, or 1 if the scope has no version.
\<close>

theorem version_numbers_contiguous:
  assumes "reachable db"
  shows "(\<forall>pid. project_versions db pid = [1..int (length (project_versions db pid))]) \<and>
         (\<forall>tid. template_versions db tid = [1..int (length (template_versions db tid))]) \<and>
         (\<forall>snap pid rdmp_data u db' row.
            earlier snap db \<and> create_project_rdmp_version_at snap db pid rdmp_data u = Inr (db', row) \<longrightarrow>
            rdmp_versions db' = rdmp_versions db @ [row] \<and>
            RDMPVersion.version_int row =
              (if project_versions db pid = [] then 1 else Max (set (project_versions db pid)) + 1)) \<and>
         (\<forall>snap tid version_data u db' row.
            earlier snap db \<and> create_template_version_at snap db tid version_data u = Inr (db', row) \<longrightarrow>
            rdmp_template_versions db' = rdmp_template_versions db @ [row] \<and>
            RDMPTemplateVersion.version_int row =
              (if template_versions db tid = [] then 1 else Max (set (template_versions db tid)) + 1))"
proof -
  have n: "numbered db" using assms by (rule reachable_numbered)
  have p: "contiguous (project_versions db pid)" for pid using n by (simp add: numbered_def)
  have t: "contiguous (template_versions db tid)" for tid using n by (simp add: numbered_def)
  have next_p: "int (length (project_versions db pid)) + 1 =
      (if project_versions db pid = [] then 1 else Max (set (project_versions db pid)) + 1)" for pid
    using contiguous_Max [OF p] by simp
  have next_t: "int (length (template_versions db tid)) + 1 =
      (if template_versions db tid = [] then 1 else Max (set (template_versions db tid)) + 1)" for tid
    using contiguous_Max [OF t] by simp
  have a: "rdmp_versions db' = rdmp_versions db @ [row] \<and>
           RDMPVersion.version_int row =
             (if project_versions db pid = [] then 1 else Max (set (project_versions db pid)) + 1)"
    if "earlier snap db" "create_project_rdmp_version_at snap db pid rdmp_data u = Inr (db', row)"
    for snap pid rdmp_data u db' row
    using project_append_number(2) [OF n that]
      insert_rdmp_version_Inr(1) [OF create_project_rdmp_version_at_Inr(2) [OF that(2)]] next_p [of pid]
    by simp
  have b: "rdmp_template_versions db' = rdmp_template_versions db @ [row] \<and>
           RDMPTemplateVersion.version_int row =
             (if template_versions db tid = [] then 1 else Max (set (template_versions db tid)) + 1)"
    if "earlier snap db" "create_template_version_at snap db tid version_data u = Inr (db', row)"
    for snap tid version_data u db' row
    using template_append_number(2) [OF n that]
      insert_template_version_Inr(1) [OF create_template_version_at_Inr(2) [OF that(2)]] next_t [of tid]
    by simp
  show ?thesis
    using contiguous_upto [OF p] contiguous_upto [OF t] a b by blast
qed

theorem version_numbers_contiguous_witness:
  "reachable db_two \<and> project_versions db_two 1 = [1, 2] \<and>
   earlier db_two db_two \<and>
   create_project_rdmp_version_at db_two db_two 1 example_request 7 = Inr (db_three, version_row 3 3 example_rdmp) \<and>
   RDMPVersion.version_int (version_row 3 3 example_rdmp) = Max (set (project_versions db_two 1)) + 1 \<and>
   reachable db_template \<and> template_versions db_template 1 = [1] \<and>
   earlier db_template db_template \<and>
   create_template_version_at db_template db_template 1
     \<lparr>RDMPTemplateVersionCreate.template_json = example_rdmp\<rparr> 7 =
     Inr (db_template_two, template_row 2 2 example_rdmp) \<and>
   RDMPTemplateVersion.version_int (template_row 2 2 example_rdmp) = Max (set (template_versions db_template 1)) + 1"
proof -
  note p = version_numbers_contiguous [OF reachable_db_two]
  note t = version_numbers_contiguous [OF reachable_db_template]
  have lp: "length (project_versions db_two 1) = 2"
    by (simp add: project_versions_def db_two_def version_row_def)
  have lt: "length (template_versions db_template 1) = 1"
    by (simp add: template_versions_def db_template_def template_row_def)
  have "project_versions db_two 1 = [1..int (length (project_versions db_two 1))]"
    using p by blast
  then have vp: "project_versions db_two 1 = [1, 2]"
    unfolding lp by (simp add: upto.simps)
  have "template_versions db_template 1 = [1..int (length (template_versions db_template 1))]"
    using t by blast
  then have vt: "template_versions db_template 1 = [1]"
    unfolding lt by (simp add: upto.simps)
  have "RDMPVersion.version_int (version_row 3 3 example_rdmp) =
          (if project_versions db_two 1 = [] then 1 else Max (set (project_versions db_two 1)) + 1)"
    using p third_append earlier_refl by blast
  then have np: "RDMPVersion.version_int (version_row 3 3 example_rdmp) = Max (set (project_versions db_two 1)) + 1"
    using vp by simp
  have "RDMPTemplateVersion.version_int (template_row 2 2 example_rdmp) =
          (if template_versions db_template 1 = [] then 1 else Max (set (template_versions db_template 1)) + 1)"
    using t template_appended earlier_refl by blast
  then have nt: "RDMPTemplateVersion.version_int (template_row 2 2 example_rdmp) = Max (set (template_versions db_template 1)) + 1"
    using vt by simp
  show ?thesis
    using reachable_db_two reachable_db_template vp vt np nt third_append template_appended by simp
qed

text \<open>
  C6. A body that does not pass the schema validator makes each of the three handlers
  fail with HTTP 400 and the validator's errors (for a new template version, when the
  template exists; otherwise the handler has already failed with 404), before anything
  is written; and in every store the handlers can produce, every project version and
  every template version holds a body that passes the validator.
\<close>

theorem invalid_body_rejected_and_never_stored:
  "(validate_rdmp_schema (model_dump (RDMPVersionCreate.rdmp_json rdmp_data)) \<noteq> Inr (True, []) \<longrightarrow>
      (\<exists>errors. errors \<noteq> [] \<and>
         validate_rdmp_schema (model_dump (RDMPVersionCreate.rdmp_json rdmp_data)) = Inr (False, errors) \<and>
         create_project_rdmp_version_at snap db pid rdmp_data u =
           Inl (HTTPException 400 (Schema_detail ''Invalid RDMP schema'' errors)))) \<and>
   (validate_rdmp_schema (model_dump (RDMPTemplateVersionCreate.template_json version_data)) \<noteq> Inr (True, []) \<and>
    first (filter (\<lambda>t. RDMPTemplate.id' t = tid) (rdmp_templates snap)) \<noteq> None \<longrightarrow>
      (\<exists>errors. errors \<noteq> [] \<and>
         validate_rdmp_schema (model_dump (RDMPTemplateVersionCreate.template_json version_data)) = Inr (False, errors) \<and>
         create_template_version_at snap db tid version_data u =
           Inl (HTTPException 400 (Schema_detail ''Invalid RDMP schema'' errors)))) \<and>
   (validate_rdmp_schema (model_dump (RDMPTemplateCreate.template_json template_data)) \<noteq> Inr (True, []) \<longrightarrow>
      (\<exists>errors. errors \<noteq> [] \<and>
         validate_rdmp_schema (model_dump (RDMPTemplateCreate.template_json template_data)) = Inr (False, errors) \<and>
         create_template db template_data u =
           Inl (HTTPException 400 (Schema_detail ''Invalid RDMP schema'' errors)))) \<and>
   (reachable db0 \<longrightarrow>
      (\<forall>r \<in> set (rdmp_versions db0). validate_rdmp_schema (RDMPVersion.rdmp_json r) = Inr (True, [])) \<and>
      (\<forall>r \<in> set (rdmp_template_versions db0).
         validate_rdmp_schema (RDMPTemplateVersion.template_json r) = Inr (True, [])))"
proof (intro conjI impI)
  assume "validate_rdmp_schema (model_dump (RDMPVersionCreate.rdmp_json rdmp_data)) \<noteq> Inr (True, [])"
  then obtain errors where "errors \<noteq> []"
    "validate_rdmp_schema (model_dump (RDMPVersionCreate.rdmp_json rdmp_data)) = Inr (False, errors)"
    by (rule invalid_dump)
  then show "\<exists>errors. errors \<noteq> [] \<and>
         validate_rdmp_schema (model_dump (RDMPVersionCreate.rdmp_json rdmp_data)) = Inr (False, errors) \<and>
         create_project_rdmp_version_at snap db pid rdmp_data u =
           Inl (HTTPException 400 (Schema_detail ''Invalid RDMP schema'' errors))"
    by (auto simp: create_project_rdmp_version_at_def)
next
  assume a: "validate_rdmp_schema (model_dump (RDMPTemplateVersionCreate.template_json version_data)) \<noteq> Inr (True, []) \<and>
    first (filter (\<lambda>t. RDMPTemplate.id' t = tid) (rdmp_templates snap)) \<noteq> None"
  then obtain errors where "errors \<noteq> []"
    "validate_rdmp_schema (model_dump (RDMPTemplateVersionCreate.template_json version_data)) = Inr (False, errors)"
    using invalid_dump by blast
  then show "\<exists>errors. errors \<noteq> [] \<and>
         validate_rdmp_schema (model_dump (RDMPTemplateVersionCreate.template_json version_data)) = Inr (False, errors) \<and>
         create_template_version_at snap db tid version_data u =
           Inl (HTTPException 400 (Schema_detail ''Invalid RDMP schema'' errors))"
    using a by (auto simp: create_template_version_at_def split: option.splits)
next
  assume "validate_rdmp_schema (model_dump (RDMPTemplateCreate.template_json template_data)) \<noteq> Inr (True, [])"
  then obtain errors where "errors \<noteq> []"
    "validate_rdmp_schema (model_dump (RDMPTemplateCreate.template_json template_data)) = Inr (False, errors)"
    by (rule invalid_dump)
  then show "\<exists>errors. errors \<noteq> [] \<and>
         validate_rdmp_schema (model_dump (RDMPTemplateCreate.template_json template_data)) = Inr (False, errors) \<and>
         create_template db template_data u =
           Inl (HTTPException 400 (Schema_detail ''Invalid RDMP schema'' errors))"
    by (auto simp: create_template_def)
next
  assume "reachable db0"
  then have "stored_valid db0" by (rule reachable_stored_valid)
  then show "\<forall>r \<in> set (rdmp_versions db0). validate_rdmp_schema (RDMPVersion.rdmp_json r) = Inr (True, [])"
    and "\<forall>r \<in> set (rdmp_template_versions db0).
         validate_rdmp_schema (RDMPTemplateVersion.template_json r) = Inr (True, [])"
    by (simp_all add: stored_valid_def)
qed

theorem invalid_body_rejected_and_never_stored_witness:
  "validate_rdmp_schema (model_dump partial_rdmp) \<noteq> Inr (True, []) \<and>
   first (filter (\<lambda>t. RDMPTemplate.id' t = 1) (rdmp_templates db_template)) \<noteq> None \<and>
   (\<exists>errors. errors \<noteq> [] \<and>
      create_project_rdmp_version_at db_template db_template 1
        \<lparr>RDMPVersionCreate.rdmp_json = partial_rdmp, provenance_json = None\<rparr> 7 =
      Inl (HTTPException 400 (Schema_detail ''Invalid RDMP schema'' errors))) \<and>
   (\<exists>errors. errors \<noteq> [] \<and>
      create_template_version_at db_template db_template 1
        \<lparr>RDMPTemplateVersionCreate.template_json = partial_rdmp\<rparr> 7 =
      Inl (HTTPException 400 (Schema_detail ''Invalid RDMP schema'' errors))) \<and>
   (\<exists>errors. errors \<noteq> [] \<and>
      create_template db_template
        \<lparr>RDMPTemplateCreate.name = ''other'', description = None, template_json = partial_rdmp\<rparr> 7 =
      Inl (HTTPException 400 (Schema_detail ''Invalid RDMP schema'' errors))) \<and>
   reachable db_two \<and>
   version_row 2 2 example_rdmp \<in> set (rdmp_versions db_two) \<and>
   validate_rdmp_schema (RDMPVersion.rdmp_json (version_row 2 2 example_rdmp)) = Inr (True, [])"
proof -
  have e: "first (filter (\<lambda>t. RDMPTemplate.id' t = 1) (rdmp_templates db_template)) \<noteq> None"
    by (simp add: db_template_def basic_template_def)
  have p: "validate_rdmp_schema (model_dump (RDMPVersionCreate.rdmp_json
             \<lparr>RDMPVersionCreate.rdmp_json = partial_rdmp, provenance_json = None\<rparr>)) \<noteq> Inr (True, [])"
    and v: "validate_rdmp_schema (model_dump (RDMPTemplateVersionCreate.template_json
             \<lparr>RDMPTemplateVersionCreate.template_json = partial_rdmp\<rparr>)) \<noteq> Inr (True, [])"
    and c: "validate_rdmp_schema (model_dump (RDMPTemplateCreate.template_json
             \<lparr>RDMPTemplateCreate.name = ''other'', description = None, template_json = partial_rdmp\<rparr>)) \<noteq> Inr (True, [])"
    using partial_rdmp_invalid by simp_all
  note t = invalid_body_rejected_and_never_stored [where
        rdmp_data = "\<lparr>RDMPVersionCreate.rdmp_json = partial_rdmp, provenance_json = None\<rparr>"
        and version_data = "\<lparr>RDMPTemplateVersionCreate.template_json = partial_rdmp\<rparr>"
        and template_data = "\<lparr>RDMPTemplateCreate.name = ''other'', description = None, template_json = partial_rdmp\<rparr>"
        and snap = db_template and db = db_template and tid = 1 and pid = 1 and u = 7 and ?db0.0 = db_two]
  have 1: "\<exists>errors. errors \<noteq> [] \<and>
      create_project_rdmp_version_at db_template db_template 1
        \<lparr>RDMPVersionCreate.rdmp_json = partial_rdmp, provenance_json = None\<rparr> 7 =
      Inl (HTTPException 400 (Schema_detail ''Invalid RDMP schema'' errors))"
    using t p by blast
  have 2: "\<exists>errors. errors \<noteq> [] \<and>
      create_template_version_at db_template db_template 1
        \<lparr>RDMPTemplateVersionCreate.template_json = partial_rdmp\<rparr> 7 =
      Inl (HTTPException 400 (Schema_detail ''Invalid RDMP schema'' errors))"
    using t v e by blast
  have 3: "\<exists>errors. errors \<noteq> [] \<and>
      create_template db_template
        \<lparr>RDMPTemplateCreate.name = ''other'', description = None, template_json = partial_rdmp\<rparr> 7 =
      Inl (HTTPException 400 (Schema_detail ''Invalid RDMP schema'' errors))"
    using t c by blast
  have m: "version_row 2 2 example_rdmp \<in> set (rdmp_versions db_two)"
    by (simp add: db_two_def)
  have "\<forall>r \<in> set (rdmp_versions db_two). validate_rdmp_schema (RDMPVersion.rdmp_json r) = Inr (True, [])"
    using t reachable_db_two by blast
  then have 4: "validate_rdmp_schema (RDMPVersion.rdmp_json (version_row 2 2 example_rdmp)) = Inr (True, [])"
    using m by blast
  show ?thesis
    using partial_rdmp_invalid e 1 2 3 4 m reachable_db_two by blast
qed

section \<open>Permissions\<close>

lemma check_perms_clean:
  assumes "check_perms ps perms role i errors = Inr []"
  shows "\<forall>p \<in> set ps. py_in (JStr p) perms = Inr True"
  using assms
proof (induction ps arbitrary: errors)
  case Nil
  then show ?case by simp
next
  case (Cons p ps)
  show ?case
  proof (cases "py_in (JStr p) perms")
    case (Inl e)
    then show ?thesis using Cons.prems by simp
  next
    case (Inr present)
    show ?thesis
    proof (cases present)
      case True
      then show ?thesis using Cons Inr by simp
    next
      case False
      then obtain n where "check_perms ps perms role i
               (errors @ [[Lit (''Role '' @ [sq]), Fmt n, Lit (sq # '' missing permission '' @ [sq]),
                           Fmt (JStr p), Lit [sq]]]) = Inr []"
        using Cons.prems Inr by (cases "py_get role ''name'' (JInt (int i))") auto
      then have False using check_perms_mono by fastforce
      then show ?thesis ..
    qed
  qed
qed

lemma validate_role_clean:
  assumes "validate_role i r names errors = Inr (names', [])"
  shows "\<exists>perms. py_getitem r ''permissions'' = Inr perms \<and>
           (\<forall>p \<in> set required_perms. py_in (JStr p) perms = Inr True)"
proof -
  obtain e1 where 1: "check_role_name i r names errors = Inr (names', e1)"
    and 2: "check_role_permissions i r e1 = Inr []"
    using assms by (auto simp: validate_role_def and_then_eq_Inr)
  from 2 obtain h where h: "py_in (JStr ''permissions'') r = Inr h"
    by (auto simp: check_role_permissions_def and_then_eq_Inr)
  have "h" using 2 h by (cases h) (auto simp: check_role_permissions_def)
  then obtain perms where p: "py_getitem r ''permissions'' = Inr perms"
    and c: "check_perms required_perms perms r i e1 = Inr []"
    using 2 h by (auto simp: check_role_permissions_def and_then_eq_Inr)
  show ?thesis using p check_perms_clean [OF c] by blast
qed

lemma validate_roles_clean:
  assumes "validate_roles rs i names errors = Inr []"
  shows "\<forall>r \<in> set rs. \<exists>perms. py_getitem r ''permissions'' = Inr perms \<and>
           (\<forall>p \<in> set required_perms. py_in (JStr p) perms = Inr True)"
  using assms
proof (induction rs arbitrary: i names errors)
  case Nil
  then show ?case by simp
next
  case (Cons r rs)
  from Cons.prems obtain names1 errors1
    where step: "validate_role i r names errors = Inr (names1, errors1)"
      and rest: "validate_roles rs (Suc i) names1 errors1 = Inr []"
    by (auto split: sum.splits)
  have "errors1 = []" using validate_roles_mono [OF rest] by simp
  then show ?case
    using validate_role_clean step Cons.IH [OF rest] by auto
qed

lemma map_of_dump_permissions:
  "map_of (map (\<lambda>(k, b). (k, JBool b)) ps) k = map_option JBool (map_of ps k)"
  by (induction ps) auto

lemma valid_dump_permissions:
  assumes "validate_rdmp_schema (model_dump b) = Inr (True, [])"
    and "r \<in> set (roles b)" and "p \<in> set required_perms"
  shows "map_of (permissions r) p \<noteq> None"
proof -
  from assms(1) obtain e2 e3 where rs: "roles_section (model_dump b) e2 = Inr e3"
    and fs: "fields_section (model_dump b) e3 = Inr []"
    by (rule validate_rdmp_schema_sections)
  have "e3 = []" using fields_section_mono [OF fs] by simp
  have ne: "map model_dump_RDMPRole (roles b) \<noteq> []" using assms(2) by auto
  have "roles_section (model_dump b) e2 = validate_roles (map model_dump_RDMPRole (roles b)) 0 [] e2"
    unfolding model_dump_def by (rule roles_section_list) (use ne in simp_all)
  then have "validate_roles (map model_dump_RDMPRole (roles b)) 0 [] e2 = Inr []"
    using rs \<open>e3 = []\<close> by simp
  then obtain perms where "py_getitem (model_dump_RDMPRole r) ''permissions'' = Inr perms"
    and "py_in (JStr p) perms = Inr True"
    using validate_roles_clean assms(2,3) by fastforce
  then show ?thesis
    by (auto simp: model_dump_RDMPRole_def map_of_dump_permissions)
qed

lemma find_role_dump:
  "find_role (map model_dump_RDMPRole rs) rn =
   Inr (map_option model_dump_RDMPRole (find (\<lambda>r. RDMPRole.name r = rn) rs))"
  by (induction rs) (auto simp: model_dump_RDMPRole_def)




end
